theory Spec2Isabelle
  imports Complex_Main "HOL-Library.Word"
begin

section \<open>avPublisher.c: data model\<close>

text \<open>
  The component samples six sensor quantities once per timer tick, records a reading into an
  AirVantage time-series record when it differs enough from the last recorded one, and pushes
  the record under a minimum interval and a staleness rule.

  Conventions of the embedding:
  \<^item> \<^verbatim>\<open>uint64_t\<close> timestamps are 64-bit words, so \<^verbatim>\<open>now - t\<close> wraps and comparisons are
    unsigned; \<^verbatim>\<open>int32_t\<close> is a 32-bit word read as two's complement, and signed overflow
    (undefined in ISO C) is taken as the wrap-around of the target;
  \<^item> \<^verbatim>\<open>double\<close> is modelled by the real numbers: rounding, infinities and NaN are not
    represented;
  \<^item> a \<^verbatim>\<open>void *\<close> to a reading is the reading itself, tagged with its shape; the cast a
    function makes on entry is the selector of that shape;
  \<^item> a function pointer of \<^verbatim>\<open>struct Item\<close> is an option, \<open>None\<close> for a member the
    initialiser leaves out (a null pointer); calling it ends the tick with a crash;
  \<^item> everything outside the file (sensor drivers, the AirVantage record and push calls, the
    clock) is a parameter of the tick, the record \<open>World\<close>.
\<close>

type_synonym uint64_t = "64 word"
type_synonym int32_t = "32 word"

text \<open>The members of Legato's \<^verbatim>\<open>le_result_t\<close> that the file names. The code only ever
  compares a result with \<^verbatim>\<open>LE_OK\<close>.\<close>

datatype le_result_t = LE_OK | LE_OVERFLOW | LE_FAULT | LE_BUSY | LE_OUT_OF_RANGE

record Acceleration =
  acc_x :: real
  acc_y :: real
  acc_z :: real

record Gyro =
  gyro_x :: real
  gyro_y :: real
  gyro_z :: real

record Location3d =
  latitude :: real
  longitude :: real
  hAccuracy :: real
  altitude :: real
  vAccuracy :: real

text \<open>What a \<^verbatim>\<open>void *value\<close> of \<^verbatim>\<open>struct Item\<close> points at: one member of
  \<^verbatim>\<open>struct SensorReadings\<close>.\<close>

datatype Value =
    Int32 (as_int32: int32_t)
  | Double (as_double: real)
  | Acc (as_acc: Acceleration)
  | Gyr (as_gyro: Gyro)
  | Loc (as_loc: Location3d)

record SensorReadings =
  lightLevel :: int32_t
  pressure :: real
  temperature :: real
  acc :: Acceleration
  gyro :: Gyro
  location :: Location3d

subsection \<open>The AirVantage record and the world of one tick\<close>

text \<open>A call that appends one entry to the record: path, value, timestamp.\<close>

datatype AvCall =
    RecordInt string int32_t uint64_t
  | RecordFloat string real uint64_t

text \<open>The record behind \<^verbatim>\<open>RecordRef\<close>, as the calls made on it with the result each one
  returned. The entries it holds are the calls that returned \<^verbatim>\<open>LE_OK\<close>.\<close>

type_synonym le_avdata_RecordRef_t = "(AvCall \<times> le_result_t) list"

record World =
  GetCurrentTimestamp :: uint64_t
  mangOH_ReadLightSensor :: "int32_t \<Rightarrow> le_result_t \<times> int32_t"
  mangOH_ReadPressureSensor :: "real \<Rightarrow> le_result_t \<times> real"
  mangOH_ReadTemperatureSensor :: "real \<Rightarrow> le_result_t \<times> real"
  mangOH_ReadAccelerometer :: "real \<times> real \<times> real \<Rightarrow> le_result_t \<times> real \<times> real \<times> real"
  mangOH_ReadGyro :: "real \<times> real \<times> real \<Rightarrow> le_result_t \<times> real \<times> real \<times> real"
  mangOH_ReadGps ::
    "real \<times> real \<times> real \<times> real \<times> real \<Rightarrow> le_result_t \<times> real \<times> real \<times> real \<times> real \<times> real"
  le_avdata_Record :: "le_avdata_RecordRef_t \<Rightarrow> AvCall \<Rightarrow> le_result_t"
  le_avdata_Push :: "le_avdata_RecordRef_t \<Rightarrow> le_result_t"

definition le_avdata_RecordInt ::
  "World \<Rightarrow> le_avdata_RecordRef_t \<Rightarrow> string \<Rightarrow> int32_t \<Rightarrow> uint64_t \<Rightarrow> le_result_t \<times> le_avdata_RecordRef_t"
where
  "le_avdata_RecordInt w ref path v timestamp =
     (let c = RecordInt path v timestamp; r = le_avdata_Record w ref c in (r, ref @ [(c, r)]))"

definition le_avdata_RecordFloat ::
  "World \<Rightarrow> le_avdata_RecordRef_t \<Rightarrow> string \<Rightarrow> real \<Rightarrow> uint64_t \<Rightarrow> le_result_t \<times> le_avdata_RecordRef_t"
where
  "le_avdata_RecordFloat w ref path v timestamp =
     (let c = RecordFloat path v timestamp; r = le_avdata_Record w ref c in (r, ref @ [(c, r)]))"

section \<open>Per-sensor operations\<close>

subsection \<open>Threshold checks\<close>

text \<open>\<^verbatim>\<open>abs\<close> of \<^verbatim>\<open>stdlib.h\<close> on a 32-bit \<^verbatim>\<open>int\<close>.\<close>

definition abs_int32 :: "int32_t \<Rightarrow> int32_t" where
  "abs_int32 v = (if v <s 0 then - v else v)"

definition LightSensorThreshold :: "Value \<Rightarrow> Value \<Rightarrow> bool" where
  "LightSensorThreshold recordedValue readValue =
     (let v1 = as_int32 recordedValue; v2 = as_int32 readValue
      in 200 <s abs_int32 (v1 - v2))"

definition PressureSensorThreshold :: "Value \<Rightarrow> Value \<Rightarrow> bool" where
  "PressureSensorThreshold recordedValue readValue =
     (let v1 = as_double recordedValue; v2 = as_double readValue
      in \<bar>v1 - v2\<bar> > 1.0)"

definition TemperatureSensorThreshold :: "Value \<Rightarrow> Value \<Rightarrow> bool" where
  "TemperatureSensorThreshold recordedValue readValue =
     (let v1 = as_double recordedValue; v2 = as_double readValue
      in \<bar>v1 - v2\<bar> > 2.0)"

definition AccelerometerThreshold :: "Value \<Rightarrow> Value \<Rightarrow> bool" where
  "AccelerometerThreshold recordedValue readValue =
     (let v1 = as_acc recordedValue; v2 = as_acc readValue;
          deltaX = acc_x v1 - acc_x v2;
          deltaY = acc_y v1 - acc_y v2;
          deltaZ = acc_z v1 - acc_z v2;
          deltaAcc = sqrt (deltaX ^ 2 + deltaY ^ 2 + deltaZ ^ 2)
      in \<bar>deltaAcc\<bar> > 1.0)"

definition GyroThreshold :: "Value \<Rightarrow> Value \<Rightarrow> bool" where
  "GyroThreshold recordedValue readValue =
     (let v1 = as_gyro recordedValue; v2 = as_gyro readValue;
          deltaX = gyro_x v1 - gyro_x v2;
          deltaY = gyro_y v1 - gyro_y v2;
          deltaZ = gyro_z v1 - gyro_z v2;
          deltaAngVel = sqrt (deltaX ^ 2 + deltaY ^ 2 + deltaZ ^ 2)
      in \<bar>deltaAngVel\<bar> > pi / 2.0)"

definition GpsThreshold :: "Value \<Rightarrow> Value \<Rightarrow> bool" where
  "GpsThreshold recordedValue readValue =
     (let v1 = as_loc recordedValue; v2 = as_loc readValue;
          deltaLat = latitude v2 - latitude v1;
          deltaLon = longitude v2 - longitude v1
      in \<bar>deltaLat\<bar> + \<bar>deltaLon\<bar> > 0.01)"

subsection \<open>Reading a sensor\<close>

text \<open>A driver is given the storage it writes to and returns its result with the storage as it
  leaves it; what it leaves behind on failure is the driver's business.\<close>

definition LightSensorRead :: "World \<Rightarrow> Value \<Rightarrow> le_result_t \<times> Value" where
  "LightSensorRead w value =
     (let (r, v) = mangOH_ReadLightSensor w (as_int32 value) in (r, Int32 v))"

definition PressureSensorRead :: "World \<Rightarrow> Value \<Rightarrow> le_result_t \<times> Value" where
  "PressureSensorRead w value =
     (let (r, v) = mangOH_ReadPressureSensor w (as_double value) in (r, Double v))"

definition TemperatureSensorRead :: "World \<Rightarrow> Value \<Rightarrow> le_result_t \<times> Value" where
  "TemperatureSensorRead w value =
     (let (r, v) = mangOH_ReadTemperatureSensor w (as_double value) in (r, Double v))"

definition AccelerometerRead :: "World \<Rightarrow> Value \<Rightarrow> le_result_t \<times> Value" where
  "AccelerometerRead w value =
     (let v = as_acc value;
          (r, x, y, z) = mangOH_ReadAccelerometer w (acc_x v, acc_y v, acc_z v)
      in (r, Acc (v\<lparr>acc_x := x, acc_y := y, acc_z := z\<rparr>)))"

definition GyroRead :: "World \<Rightarrow> Value \<Rightarrow> le_result_t \<times> Value" where
  "GyroRead w value =
     (let v = as_gyro value;
          (r, x, y, z) = mangOH_ReadGyro w (gyro_x v, gyro_y v, gyro_z v)
      in (r, Gyr (v\<lparr>gyro_x := x, gyro_y := y, gyro_z := z\<rparr>)))"

definition GpsRead :: "World \<Rightarrow> Value \<Rightarrow> le_result_t \<times> Value" where
  "GpsRead w value =
     (let v = as_loc value;
          (r, lat, lon, hAcc, alt, vAcc) =
             mangOH_ReadGps w (latitude v, longitude v, hAccuracy v, altitude v, vAccuracy v)
      in (r, Loc (v\<lparr>latitude := lat, longitude := lon, hAccuracy := hAcc,
                       altitude := alt, vAccuracy := vAcc\<rparr>)))"

subsection \<open>Recording a reading\<close>

text \<open>The record functions of the source ignore their \<^verbatim>\<open>ref\<close> parameter and write to the global
  \<^verbatim>\<open>RecordRef\<close>; their only caller passes \<^verbatim>\<open>RecordRef\<close>, so the two are one here. Log output
  (\<^verbatim>\<open>LE_ERROR\<close>, \<^verbatim>\<open>LE_WARN\<close>) is not modelled.\<close>

definition LightSensorRecord ::
  "World \<Rightarrow> le_avdata_RecordRef_t \<Rightarrow> uint64_t \<Rightarrow> Value \<Rightarrow> le_result_t \<times> le_avdata_RecordRef_t"
where
  "LightSensorRecord w ref timestamp value =
     le_avdata_RecordInt w ref ''MangOH.Sensors.Light.Level'' (as_int32 value) timestamp"

definition PressureSensorRecord ::
  "World \<Rightarrow> le_avdata_RecordRef_t \<Rightarrow> uint64_t \<Rightarrow> Value \<Rightarrow> le_result_t \<times> le_avdata_RecordRef_t"
where
  "PressureSensorRecord w ref timestamp value =
     le_avdata_RecordFloat w ref ''MangOH.Sensors.Pressure.Pressure'' (as_double value) timestamp"

definition TemperatureSensorRecord ::
  "World \<Rightarrow> le_avdata_RecordRef_t \<Rightarrow> uint64_t \<Rightarrow> Value \<Rightarrow> le_result_t \<times> le_avdata_RecordRef_t"
where
  "TemperatureSensorRecord w ref timestamp value =
     le_avdata_RecordFloat w ref ''MangOH.Sensors.Pressure.Temperature'' (as_double value) timestamp"

definition AccelerometerRecord ::
  "World \<Rightarrow> le_avdata_RecordRef_t \<Rightarrow> uint64_t \<Rightarrow> Value \<Rightarrow> le_result_t \<times> le_avdata_RecordRef_t"
where
  "AccelerometerRecord w ref timestamp value =
     (let v = as_acc value;
          (result, ref) = le_avdata_RecordFloat w ref
             ''MangOH.Sensors.Accelerometer.Acceleration.X'' (acc_x v) timestamp
      in if result \<noteq> LE_OK then (result, ref)
         else
           let (result, ref) = le_avdata_RecordFloat w ref
                  ''MangOH.Sensors.Accelerometer.Acceleration.Y'' (acc_y v) timestamp
           in if result \<noteq> LE_OK then (result, ref)
              else le_avdata_RecordFloat w ref
                     ''MangOH.Sensors.Accelerometer.Acceleration.Z'' (acc_z v) timestamp)"

definition GyroRecord ::
  "World \<Rightarrow> le_avdata_RecordRef_t \<Rightarrow> uint64_t \<Rightarrow> Value \<Rightarrow> le_result_t \<times> le_avdata_RecordRef_t"
where
  "GyroRecord w ref timestamp value =
     (let v = as_gyro value;
          (result, ref) = le_avdata_RecordFloat w ref
             ''MangOH.Sensors.Accelerometer.Gyro.X'' (gyro_x v) timestamp
      in if result \<noteq> LE_OK then (result, ref)
         else
           let (result, ref) = le_avdata_RecordFloat w ref
                  ''MangOH.Sensors.Accelerometer.Gyro.Y'' (gyro_y v) timestamp
           in if result \<noteq> LE_OK then (result, ref)
              else le_avdata_RecordFloat w ref
                     ''MangOH.Sensors.Accelerometer.Gyro.Z'' (gyro_z v) timestamp)"

text \<open>\<^verbatim>\<open>strcpy(&path[end], s)\<close> puts \<open>s\<close> after the prefix \<^verbatim>\<open>"lwm2m.6.0."\<close>, also for the
  vertical accuracy.\<close>

definition GpsRecord ::
  "World \<Rightarrow> le_avdata_RecordRef_t \<Rightarrow> uint64_t \<Rightarrow> Value \<Rightarrow> le_result_t \<times> le_avdata_RecordRef_t"
where
  "GpsRecord w ref timestamp value =
     (let path = ''lwm2m.6.0.'';
          v = as_loc value;
          (result, ref) = le_avdata_RecordFloat w ref (path @ ''0'') (latitude v) timestamp
      in if result \<noteq> LE_OK then (result, ref)
         else
           let (result, ref) = le_avdata_RecordFloat w ref (path @ ''1'') (longitude v) timestamp
           in if result \<noteq> LE_OK then (result, ref)
              else
                let (result, ref) =
                      le_avdata_RecordFloat w ref (path @ ''3'') (hAccuracy v) timestamp
                in if result \<noteq> LE_OK then (result, ref)
                   else
                     let (result, ref) =
                           le_avdata_RecordFloat w ref (path @ ''2'') (altitude v) timestamp
                     in if result \<noteq> LE_OK then (result, ref)
                        else le_avdata_RecordFloat w ref
                               (path @ ''MangOH.Sensors.Gps.VerticalAccuracy'') (vAccuracy v)
                               timestamp)"

subsection \<open>Copying a reading\<close>

text \<open>\<open>copyValue dest src\<close> is the content of \<^verbatim>\<open>*dest\<close> after the call.\<close>

definition LightSensorCopyValue :: "Value \<Rightarrow> Value \<Rightarrow> Value" where
  "LightSensorCopyValue dest src = Int32 (as_int32 src)"

definition PressureSensorCopyValue :: "Value \<Rightarrow> Value \<Rightarrow> Value" where
  "PressureSensorCopyValue dest src = Double (as_double src)"

definition TemperatureSensorCopyValue :: "Value \<Rightarrow> Value \<Rightarrow> Value" where
  "TemperatureSensorCopyValue dest src = Double (as_double src)"

definition AccelerometerCopyValue :: "Value \<Rightarrow> Value \<Rightarrow> Value" where
  "AccelerometerCopyValue dest src =
     (let d = as_acc dest; s = as_acc src
      in Acc (d\<lparr>acc_x := acc_x s, acc_y := acc_y s, acc_z := acc_z s\<rparr>))"

definition GyroCopyValue :: "Value \<Rightarrow> Value \<Rightarrow> Value" where
  "GyroCopyValue dest src =
     (let d = as_gyro dest; s = as_gyro src
      in Gyr (d\<lparr>gyro_x := gyro_x s, gyro_y := gyro_y s, gyro_z := gyro_z s\<rparr>))"

definition GpsCopyValue :: "Value \<Rightarrow> Value \<Rightarrow> Value" where
  "GpsCopyValue dest src =
     (let d = as_loc dest; s = as_loc src
      in Loc (d\<lparr>latitude := latitude s, longitude := longitude s, hAccuracy := hAccuracy s,
                altitude := altitude s, vAccuracy := vAccuracy s\<rparr>))"

section \<open>The registry\<close>

text \<open>\<^verbatim>\<open>struct Item\<close>. The field \<^verbatim>\<open>record\<close> is \<open>record_fn\<close> here. \<^verbatim>\<open>lastValueRead\<close> and
  \<^verbatim>\<open>lastValueRecorded\<close> point at members of \<^verbatim>\<open>SensorData.read\<close> and \<^verbatim>\<open>SensorData.recorded\<close>, a
  different member for every item, so each item holds the two readings itself.\<close>

record Item =
  name :: string
  read :: "(World \<Rightarrow> Value \<Rightarrow> le_result_t \<times> Value) option"
  thresholdCheck :: "(Value \<Rightarrow> Value \<Rightarrow> bool) option"
  record_fn ::
    "(World \<Rightarrow> le_avdata_RecordRef_t \<Rightarrow> uint64_t \<Rightarrow> Value \<Rightarrow> le_result_t \<times> le_avdata_RecordRef_t) option"
  copyValue :: "(Value \<Rightarrow> Value \<Rightarrow> Value) option"
  lastValueRead :: Value
  lastValueRecorded :: Value
  lastTimeRecorded :: uint64_t
  lastTimeRead :: uint64_t

definition DelayBetweenReadings :: int where "DelayBetweenReadings = 1"
definition MaxIntervalBetweenPublish :: int where "MaxIntervalBetweenPublish = 120"
definition MinIntervalBetweenPublish :: int where "MinIntervalBetweenPublish = 10"
definition TimeToStale :: int where "TimeToStale = 60"

text \<open>\<^verbatim>\<open>SensorData\<close> has static storage, so it starts zeroed.\<close>

definition SensorData_init :: SensorReadings where
  "SensorData_init =
     \<lparr>lightLevel = 0, pressure = 0, temperature = 0,
      acc = \<lparr>acc_x = 0, acc_y = 0, acc_z = 0\<rparr>,
      gyro = \<lparr>gyro_x = 0, gyro_y = 0, gyro_z = 0\<rparr>,
      location = \<lparr>latitude = 0, longitude = 0, hAccuracy = 0, altitude = 0, vAccuracy = 0\<rparr>\<rparr>"

text \<open>The initialiser of \<^verbatim>\<open>Items[]\<close>. Its first entry names neither \<^verbatim>\<open>.read\<close> nor
  \<^verbatim>\<open>.thresholdCheck\<close>, which therefore are null; it sets \<^verbatim>\<open>.dhubPath\<close>, which
  \<^verbatim>\<open>struct Item\<close> does not declare and which nothing reads.\<close>

definition Items_init :: "Item list" where
  "Items_init =
     [\<lparr>name = ''light level'',
       read = None,
       thresholdCheck = None,
       record_fn = Some LightSensorRecord,
       copyValue = Some LightSensorCopyValue,
       lastValueRead = Int32 (lightLevel SensorData_init),
       lastValueRecorded = Int32 (lightLevel SensorData_init),
       lastTimeRecorded = 0,
       lastTimeRead = 0\<rparr>,
      \<lparr>name = ''pressure'',
       read = Some PressureSensorRead,
       thresholdCheck = Some PressureSensorThreshold,
       record_fn = Some PressureSensorRecord,
       copyValue = Some PressureSensorCopyValue,
       lastValueRead = Double (pressure SensorData_init),
       lastValueRecorded = Double (pressure SensorData_init),
       lastTimeRecorded = 0,
       lastTimeRead = 0\<rparr>,
      \<lparr>name = ''temperature'',
       read = Some TemperatureSensorRead,
       thresholdCheck = Some TemperatureSensorThreshold,
       record_fn = Some TemperatureSensorRecord,
       copyValue = Some TemperatureSensorCopyValue,
       lastValueRead = Double (temperature SensorData_init),
       lastValueRecorded = Double (temperature SensorData_init),
       lastTimeRecorded = 0,
       lastTimeRead = 0\<rparr>,
      \<lparr>name = ''accelerometer'',
       read = Some AccelerometerRead,
       thresholdCheck = Some AccelerometerThreshold,
       record_fn = Some AccelerometerRecord,
       copyValue = Some AccelerometerCopyValue,
       lastValueRead = Acc (acc SensorData_init),
       lastValueRecorded = Acc (acc SensorData_init),
       lastTimeRecorded = 0,
       lastTimeRead = 0\<rparr>,
      \<lparr>name = ''gyro'',
       read = Some GyroRead,
       thresholdCheck = Some GyroThreshold,
       record_fn = Some GyroRecord,
       copyValue = Some GyroCopyValue,
       lastValueRead = Gyr (gyro SensorData_init),
       lastValueRecorded = Gyr (gyro SensorData_init),
       lastTimeRecorded = 0,
       lastTimeRead = 0\<rparr>,
      \<lparr>name = ''gps'',
       read = Some GpsRead,
       thresholdCheck = Some GpsThreshold,
       record_fn = Some GpsRecord,
       copyValue = Some GpsCopyValue,
       lastValueRead = Loc (location SensorData_init),
       lastValueRecorded = Loc (location SensorData_init),
       lastTimeRecorded = 0,
       lastTimeRead = 0\<rparr>]"

section \<open>The sample timer handler\<close>

text \<open>A call through a null function pointer ends the tick (and the process).\<close>

datatype crash = NullFunctionPointer

text \<open>The process-wide variables the handler works on. \<open>PushLog\<close> is not a variable of the
  program: it is the trace of the \<^verbatim>\<open>le_avdata_PushRecord\<close> calls made so far, each with the record
  as it was pushed and the result returned.\<close>

record State =
  Items :: "Item list"
  RecordRef :: le_avdata_RecordRef_t
  DeferredPublish :: bool
  LastTimePublished :: uint64_t
  PushLog :: "(le_avdata_RecordRef_t \<times> le_result_t) list"

definition State_init :: State where
  "State_init =
     \<lparr>Items = Items_init, RecordRef = [], DeferredPublish = False, LastTimePublished = 0,
      PushLog = []\<rparr>"

subsection \<open>The four calls through an item's function pointers\<close>

text \<open>\<^verbatim>\<open>r = it->read(it->lastValueRead)\<close>\<close>

definition call_read :: "World \<Rightarrow> Item \<Rightarrow> crash + le_result_t \<times> Item" where
  "call_read w it =
     (case read it of
        None \<Rightarrow> Inl NullFunctionPointer
      | Some f \<Rightarrow> (let (r, v) = f w (lastValueRead it) in Inr (r, it\<lparr>lastValueRead := v\<rparr>)))"

text \<open>\<^verbatim>\<open>it->lastTimeRecorded == 0 || it->thresholdCheck(it->lastValueRead, it->lastValueRecorded)\<close>:
  the right operand is evaluated only when the left one is false.\<close>

definition record_wanted :: "Item \<Rightarrow> crash + bool" where
  "record_wanted it =
     (if lastTimeRecorded it = 0 then Inr True
      else (case thresholdCheck it of
              None \<Rightarrow> Inl NullFunctionPointer
            | Some f \<Rightarrow> Inr (f (lastValueRead it) (lastValueRecorded it))))"

text \<open>\<^verbatim>\<open>r = it->record(RecordRef, timestamp, it->lastValueRead)\<close>\<close>

definition call_record ::
  "World \<Rightarrow> Item \<Rightarrow> le_avdata_RecordRef_t \<Rightarrow> uint64_t \<Rightarrow> crash + le_result_t \<times> le_avdata_RecordRef_t"
where
  "call_record w it ref timestamp =
     (case record_fn it of
        None \<Rightarrow> Inl NullFunctionPointer
      | Some f \<Rightarrow> Inr (f w ref timestamp (lastValueRead it)))"

text \<open>\<^verbatim>\<open>it->copyValue(it->lastValueRecorded, it->lastValueRead)\<close>\<close>

definition call_copyValue :: "Item \<Rightarrow> crash + Item" where
  "call_copyValue it =
     (case copyValue it of
        None \<Rightarrow> Inl NullFunctionPointer
      | Some f \<Rightarrow> Inr (it\<lparr>lastValueRecorded := f (lastValueRecorded it) (lastValueRead it)\<rparr>))"

subsection \<open>The sampling loop\<close>

text \<open>The \<^verbatim>\<open>if (r == LE_OK) ... else ...\<close> statement of the first loop's body: read the sensor and,
  when the reading is to be recorded, record it.\<close>

definition read_and_record ::
  "World \<Rightarrow> uint64_t \<Rightarrow> Item \<times> le_avdata_RecordRef_t \<times> bool
     \<Rightarrow> crash + Item \<times> le_avdata_RecordRef_t \<times> bool"
where
  "read_and_record w now = (\<lambda>(it, ref, publish).
     case call_read w it of
       Inl e \<Rightarrow> Inl e
     | Inr (r, it) \<Rightarrow>
         if r = LE_OK then
           let it = it\<lparr>lastTimeRead := now\<rparr> in
           (case record_wanted it of
              Inl e \<Rightarrow> Inl e
            | Inr wanted \<Rightarrow>
                if wanted then
                  (case call_record w it ref now of
                     Inl e \<Rightarrow> Inl e
                   | Inr (r, ref) \<Rightarrow>
                       if r = LE_OK then
                         (case call_copyValue it of
                            Inl e \<Rightarrow> Inl e
                          | Inr it \<Rightarrow> Inr (it, ref, True))
                       else Inr (it, ref, publish))
                else Inr (it, ref, publish))
         else Inr (it, ref, publish))"

text \<open>The condition of the second \<^verbatim>\<open>if\<close> of the body. \<^verbatim>\<open>MaxIntervalBetweenPublish * 1000\<close> is
  an \<^verbatim>\<open>int\<close>, converted to \<^verbatim>\<open>uint64_t\<close> for the comparison.\<close>

definition publish_forced :: "uint64_t \<Rightarrow> uint64_t \<Rightarrow> Item \<Rightarrow> bool" where
  "publish_forced now lastTimePublished it \<longleftrightarrow>
     now - lastTimeRecorded it > word_of_int (MaxIntervalBetweenPublish * 1000) \<and>
     lastTimeRead it > lastTimePublished"

text \<open>One iteration of the first loop.\<close>

definition sample_item ::
  "World \<Rightarrow> uint64_t \<Rightarrow> uint64_t \<Rightarrow> Item \<times> le_avdata_RecordRef_t \<times> bool
     \<Rightarrow> crash + Item \<times> le_avdata_RecordRef_t \<times> bool"
where
  "sample_item w now lastTimePublished x =
     (case read_and_record w now x of
        Inl e \<Rightarrow> Inl e
      | Inr (it, ref, publish) \<Rightarrow>
          Inr (it, ref, if publish_forced now lastTimePublished it then True else publish))"

fun sample_loop ::
  "World \<Rightarrow> uint64_t \<Rightarrow> uint64_t \<Rightarrow> Item list \<Rightarrow> le_avdata_RecordRef_t \<Rightarrow> bool
     \<Rightarrow> crash + Item list \<times> le_avdata_RecordRef_t \<times> bool"
where
  "sample_loop w now lastTimePublished [] ref publish = Inr ([], ref, publish)"
| "sample_loop w now lastTimePublished (it # its) ref publish =
     (case sample_item w now lastTimePublished (it, ref, publish) of
        Inl e \<Rightarrow> Inl e
      | Inr (it', ref', publish') \<Rightarrow>
          (case sample_loop w now lastTimePublished its ref' publish' of
             Inl e \<Rightarrow> Inl e
           | Inr (its', ref'', publish'') \<Rightarrow> Inr (it' # its', ref'', publish'')))"

subsection \<open>The stale items\<close>

text \<open>One iteration of the second loop.\<close>

definition is_stale :: "uint64_t \<Rightarrow> Item \<Rightarrow> bool" where
  "is_stale now it \<longleftrightarrow>
     now - lastTimeRecorded it > word_of_int (TimeToStale * 1000) \<and>
     lastTimeRead it > lastTimeRecorded it"

definition stale_item ::
  "World \<Rightarrow> uint64_t \<Rightarrow> Item \<times> le_avdata_RecordRef_t \<Rightarrow> crash + Item \<times> le_avdata_RecordRef_t"
where
  "stale_item w now = (\<lambda>(it, ref).
     if is_stale now it then
       (case call_record w it ref (lastTimeRead it) of
          Inl e \<Rightarrow> Inl e
        | Inr (r, ref) \<Rightarrow>
            if r = LE_OK then
              (case call_copyValue it of
                 Inl e \<Rightarrow> Inl e
               | Inr it \<Rightarrow> Inr (it\<lparr>lastTimeRecorded := lastTimeRead it\<rparr>, ref))
            else Inr (it, ref))
     else Inr (it, ref))"

fun stale_loop ::
  "World \<Rightarrow> uint64_t \<Rightarrow> Item list \<Rightarrow> le_avdata_RecordRef_t
     \<Rightarrow> crash + Item list \<times> le_avdata_RecordRef_t"
where
  "stale_loop w now [] ref = Inr ([], ref)"
| "stale_loop w now (it # its) ref =
     (case stale_item w now (it, ref) of
        Inl e \<Rightarrow> Inl e
      | Inr (it', ref') \<Rightarrow>
          (case stale_loop w now its ref' of
             Inl e \<Rightarrow> Inl e
           | Inr (its', ref'') \<Rightarrow> Inr (it' # its', ref'')))"

subsection \<open>Publishing\<close>

text \<open>\<^verbatim>\<open>le_avdata_PushRecord(RecordRef, AvPushCallbackHandler, NULL)\<close>. The callback, called
  later with the outcome of the push, only logs; it changes no variable.\<close>

definition le_avdata_PushRecord :: "World \<Rightarrow> State \<Rightarrow> le_result_t \<times> State" where
  "le_avdata_PushRecord w s =
     (let r = le_avdata_Push w (RecordRef s)
      in (r, s\<lparr>PushLog := PushLog s @ [(RecordRef s, r)]\<rparr>))"

text \<open>The statement \<^verbatim>\<open>if (publish || DeferredPublish) ...\<close> after the first loop.
  \<^verbatim>\<open>MinIntervalBetweenPublish\<close> is compared as it is, with no factor 1000.\<close>

definition publish_step :: "World \<Rightarrow> uint64_t \<Rightarrow> bool \<Rightarrow> State \<Rightarrow> crash + State" where
  "publish_step w now publish s =
     (if publish \<or> DeferredPublish s then
        if now - LastTimePublished s < word_of_int MinIntervalBetweenPublish then
          Inr (s\<lparr>DeferredPublish := True\<rparr>)
        else
          (case stale_loop w now (Items s) (RecordRef s) of
             Inl e \<Rightarrow> Inl e
           | Inr (its, ref) \<Rightarrow>
               let (r, s) = le_avdata_PushRecord w (s\<lparr>Items := its, RecordRef := ref\<rparr>)
               in if r \<noteq> LE_OK then Inr s
                  else Inr (s\<lparr>LastTimePublished := now, DeferredPublish := False\<rparr>))
      else Inr s)"

definition SampleTimerHandler :: "World \<Rightarrow> State \<Rightarrow> crash + State" where
  "SampleTimerHandler w s =
     (let now = GetCurrentTimestamp w;
          publish = False
      in case sample_loop w now (LastTimePublished s) (Items s) (RecordRef s) publish of
           Inl e \<Rightarrow> Inl e
         | Inr (its, ref, publish) \<Rightarrow>
             publish_step w now publish (s\<lparr>Items := its, RecordRef := ref\<rparr>))"

section \<open>Spec-level notions and sample inputs\<close>

subsection \<open>Composite quantities\<close>

text \<open>The sub-fields of each composite quantity, with the paths and in the order in which the
  record functions of the source append them.\<close>

definition Acceleration_subfields :: "Acceleration \<Rightarrow> (string \<times> real) list" where
  "Acceleration_subfields v =
     [(''MangOH.Sensors.Accelerometer.Acceleration.X'', acc_x v),
      (''MangOH.Sensors.Accelerometer.Acceleration.Y'', acc_y v),
      (''MangOH.Sensors.Accelerometer.Acceleration.Z'', acc_z v)]"

definition Gyro_subfields :: "Gyro \<Rightarrow> (string \<times> real) list" where
  "Gyro_subfields v =
     [(''MangOH.Sensors.Accelerometer.Gyro.X'', gyro_x v),
      (''MangOH.Sensors.Accelerometer.Gyro.Y'', gyro_y v),
      (''MangOH.Sensors.Accelerometer.Gyro.Z'', gyro_z v)]"

definition Location3d_subfields :: "Location3d \<Rightarrow> (string \<times> real) list" where
  "Location3d_subfields v =
     [(''lwm2m.6.0.0'', latitude v),
      (''lwm2m.6.0.1'', longitude v),
      (''lwm2m.6.0.3'', hAccuracy v),
      (''lwm2m.6.0.2'', altitude v),
      (''lwm2m.6.0.MangOH.Sensors.Gps.VerticalAccuracy'', vAccuracy v)]"

text \<open>The spec's wording of \<open>recordInto\<close> for a composite quantity: one entry is appended per
  sub-field, in order; the first append that fails ends the operation and its error is the
  result. The result before any append is that of the caller (\<^verbatim>\<open>LE_FAULT\<close> in the source).\<close>

fun spec_recordInto_composite ::
  "World \<Rightarrow> uint64_t \<Rightarrow> (string \<times> real) list \<Rightarrow> le_result_t \<times> le_avdata_RecordRef_t
     \<Rightarrow> le_result_t \<times> le_avdata_RecordRef_t"
where
  "spec_recordInto_composite w timestamp [] (result, ref) = (result, ref)"
| "spec_recordInto_composite w timestamp ((path, v) # fs) (result, ref) =
     (let (r, ref') = le_avdata_RecordFloat w ref path v timestamp
      in if r \<noteq> LE_OK then (r, ref')
         else spec_recordInto_composite w timestamp fs (r, ref'))"

text \<open>The calls that appending \<open>fs\<close> leaves on the record when the last of them returned \<open>r\<close>
  and all before it \<^verbatim>\<open>LE_OK\<close>.\<close>

definition attempts ::
  "uint64_t \<Rightarrow> (string \<times> real) list \<Rightarrow> le_result_t \<Rightarrow> (AvCall \<times> le_result_t) list" where
  "attempts timestamp fs r =
     zip (map (\<lambda>(path, v). RecordFloat path v timestamp) fs)
         (replicate (length fs - 1) LE_OK @ [r])"

subsection \<open>Observing the sampling pass\<close>

text \<open>Whether one iteration of the sampling loop made a call on the record.\<close>

definition sampling_recorded ::
  "World \<Rightarrow> uint64_t \<Rightarrow> uint64_t \<Rightarrow> Item \<Rightarrow> le_avdata_RecordRef_t \<Rightarrow> bool" where
  "sampling_recorded w now lastTimePublished it ref =
     (case sample_item w now lastTimePublished (it, ref, False) of
        Inl e \<Rightarrow> False
      | Inr (it', ref', publish) \<Rightarrow> ref' \<noteq> ref)"

subsection \<open>Complete items\<close>

text \<open>An item with none of its four function pointers null.\<close>

definition complete :: "Item \<Rightarrow> bool" where
  "complete it \<longleftrightarrow>
     read it \<noteq> None \<and> thresholdCheck it \<noteq> None \<and> record_fn it \<noteq> None \<and> copyValue it \<noteq> None"

subsection \<open>Successive ticks\<close>

text \<open>The timer repeats without end (\<^verbatim>\<open>le_timer_SetRepeat(SampleTimer, 0)\<close>) and calls the handler
  at every expiry, one call ending before the next begins. A run of ticks is the handler
  applied in turn to the world of each tick; a crash ends it.\<close>

fun run_ticks :: "World list \<Rightarrow> State \<Rightarrow> crash + State" where
  "run_ticks [] s = Inr s"
| "run_ticks (w # ws) s =
     (case SampleTimerHandler w s of
        Inl e \<Rightarrow> Inl e
      | Inr s' \<Rightarrow> run_ticks ws s')"

text \<open>Two items with the same four function pointers.\<close>

definition same_functions :: "Item \<Rightarrow> Item \<Rightarrow> bool" where
  "same_functions it it' \<longleftrightarrow>
     read it' = read it \<and> thresholdCheck it' = thresholdCheck it
     \<and> record_fn it' = record_fn it \<and> copyValue it' = copyValue it"

subsection \<open>A world in which every call succeeds\<close>

definition World_ok :: "uint64_t \<Rightarrow> World" where
  "World_ok now =
     \<lparr>GetCurrentTimestamp = now,
      mangOH_ReadLightSensor = (\<lambda>_. (LE_OK, 300)),
      mangOH_ReadPressureSensor = (\<lambda>_. (LE_OK, 1013)),
      mangOH_ReadTemperatureSensor = (\<lambda>_. (LE_OK, 20)),
      mangOH_ReadAccelerometer = (\<lambda>_. (LE_OK, 0, 0, 9.8)),
      mangOH_ReadGyro = (\<lambda>_. (LE_OK, 0, 0, 0)),
      mangOH_ReadGps = (\<lambda>_. (LE_OK, 48.85, 2.35, 5, 35, 8)),
      le_avdata_Record = (\<lambda>_ _. LE_OK),
      le_avdata_Push = (\<lambda>_. LE_OK)\<rparr>"

section \<open>Properties\<close>

lemmas sensor_defs =
  LightSensorRecord_def LightSensorCopyValue_def
  PressureSensorRead_def PressureSensorRecord_def PressureSensorCopyValue_def
  PressureSensorThreshold_def
  TemperatureSensorRead_def TemperatureSensorRecord_def TemperatureSensorCopyValue_def
  TemperatureSensorThreshold_def
  AccelerometerRead_def AccelerometerRecord_def AccelerometerCopyValue_def
  AccelerometerThreshold_def
  GyroRead_def GyroRecord_def GyroCopyValue_def GyroThreshold_def
  GpsRead_def GpsRecord_def GpsCopyValue_def GpsThreshold_def
  le_avdata_RecordInt_def le_avdata_RecordFloat_def

lemmas handler_defs =
  call_read_def record_wanted_def call_record_def call_copyValue_def read_and_record_def
  publish_forced_def sample_item_def is_stale_def stale_item_def le_avdata_PushRecord_def
  publish_step_def SampleTimerHandler_def MaxIntervalBetweenPublish_def
  MinIntervalBetweenPublish_def TimeToStale_def

lemmas input_defs = State_init_def Items_init_def SensorData_init_def World_ok_def

subsection \<open>Arithmetic of the light level\<close>

lemma sint_minus_min_int32:
  assumes "sint (v :: 32 word) = - (2 ^ 31)"
  shows "sint (- v) = sint v"
  using assms by (simp add: sint_word_minus)

lemma sint_minus_int32:
  assumes "sint (v :: 32 word) \<noteq> - (2 ^ 31)"
  shows "sint (- v) = - sint v"
proof -
  have "- (2 ^ 31) \<le> sint v" "sint v < 2 ^ 31"
    using sint_ge [of v] sint_lt [of v] by simp_all
  with assms have "- (2 ^ 31) \<le> - sint v" "- sint v < 2 ^ 31"
    by simp_all
  then have "signed_take_bit 31 (- sint v) = - sint v"
    by (intro signed_take_bit_int_eq_self) simp_all
  then show ?thesis by (simp add: sint_word_minus)
qed

lemma abs_int32_minus: "abs_int32 (- v) = abs_int32 v"
proof (cases "sint v = - (2 ^ 31)")
  case True
  have "- v = v"
    by (rule signed_word_eqI) (rule sint_minus_min_int32 [OF True])
  then show ?thesis by (rule arg_cong)
next
  case False
  have z: "sint v = 0 \<Longrightarrow> v = 0"
    by (rule signed_word_eqI) simp
  from False have "sint (- v) = - sint v"
    by (rule sint_minus_int32)
  then show ?thesis
    using z by (auto simp: abs_int32_def word_sless_alt)
qed

lemma sint_abs_int32:
  assumes "- (2 ^ 31) < sint a - sint b" "sint a - sint b < 2 ^ 31"
  shows "sint (abs_int32 (a - b :: 32 word)) = \<bar>sint a - sint b\<bar>"
proof -
  have d: "sint (a - b) = sint a - sint b"
    using assms by (simp add: sint_word_diff signed_take_bit_int_eq_self)
  then have "sint (a - b) \<noteq> - (2 ^ 31)"
    using assms by simp
  then have "sint (- (a - b)) = - sint (a - b)"
    by (rule sint_minus_int32)
  then show ?thesis
    using d by (simp add: abs_int32_def word_sless_alt)
qed

subsection \<open>The threshold checks do not depend on the order of their arguments\<close>

lemma LightSensorThreshold_sym: "LightSensorThreshold a b = LightSensorThreshold b a"
proof -
  have "as_int32 b - as_int32 a = - (as_int32 a - as_int32 b)" by simp
  then show ?thesis
    unfolding LightSensorThreshold_def Let_def by (simp only: abs_int32_minus)
qed

lemma PressureSensorThreshold_sym: "PressureSensorThreshold a b = PressureSensorThreshold b a"
  unfolding PressureSensorThreshold_def Let_def by (simp only: abs_minus_commute)

lemma TemperatureSensorThreshold_sym:
  "TemperatureSensorThreshold a b = TemperatureSensorThreshold b a"
  unfolding TemperatureSensorThreshold_def Let_def by (simp only: abs_minus_commute)

lemma AccelerometerThreshold_sym: "AccelerometerThreshold a b = AccelerometerThreshold b a"
  unfolding AccelerometerThreshold_def Let_def
  by (simp only: power2_commute [of "acc_x (as_acc a)"] power2_commute [of "acc_y (as_acc a)"]
      power2_commute [of "acc_z (as_acc a)"])

lemma GyroThreshold_sym: "GyroThreshold a b = GyroThreshold b a"
  unfolding GyroThreshold_def Let_def
  by (simp only: power2_commute [of "gyro_x (as_gyro a)"] power2_commute [of "gyro_y (as_gyro a)"]
      power2_commute [of "gyro_z (as_gyro a)"])

lemma GpsThreshold_sym: "GpsThreshold a b = GpsThreshold b a"
  unfolding GpsThreshold_def Let_def by (simp only: abs_minus_commute)

lemma record_wanted_sym:
  assumes "\<And>a b. f a b = f b a"
  shows "record_wanted (it\<lparr>thresholdCheck := Some f\<rparr>) =
           Inr (lastTimeRecorded it = 0 \<or> f (lastValueRecorded it) (lastValueRead it))"
  using assms [of "lastValueRead it" "lastValueRecorded it"] by (simp add: record_wanted_def)

text \<open>
  Claim C10. Each of the six threshold checks gives the same answer when its two arguments are
  exchanged, for all values. The handler calls \<^verbatim>\<open>thresholdCheck(lastValueRead, lastValueRecorded)\<close>,
  the reverse of the declared order \<^verbatim>\<open>(recordedValue, readValue)\<close>; with any of the six checks
  installed, its decision to record is the check in the declared order, or the item never
  having been recorded.
\<close>

theorem threshold_checks_symmetric:
  "LightSensorThreshold a b = LightSensorThreshold b a
   \<and> PressureSensorThreshold a b = PressureSensorThreshold b a
   \<and> TemperatureSensorThreshold a b = TemperatureSensorThreshold b a
   \<and> AccelerometerThreshold a b = AccelerometerThreshold b a
   \<and> GyroThreshold a b = GyroThreshold b a
   \<and> GpsThreshold a b = GpsThreshold b a
   \<and> record_wanted (it\<lparr>thresholdCheck := Some LightSensorThreshold\<rparr>) =
       Inr (lastTimeRecorded it = 0 \<or> LightSensorThreshold (lastValueRecorded it) (lastValueRead it))
   \<and> record_wanted (it\<lparr>thresholdCheck := Some PressureSensorThreshold\<rparr>) =
       Inr (lastTimeRecorded it = 0 \<or> PressureSensorThreshold (lastValueRecorded it) (lastValueRead it))
   \<and> record_wanted (it\<lparr>thresholdCheck := Some TemperatureSensorThreshold\<rparr>) =
       Inr (lastTimeRecorded it = 0
            \<or> TemperatureSensorThreshold (lastValueRecorded it) (lastValueRead it))
   \<and> record_wanted (it\<lparr>thresholdCheck := Some AccelerometerThreshold\<rparr>) =
       Inr (lastTimeRecorded it = 0 \<or> AccelerometerThreshold (lastValueRecorded it) (lastValueRead it))
   \<and> record_wanted (it\<lparr>thresholdCheck := Some GyroThreshold\<rparr>) =
       Inr (lastTimeRecorded it = 0 \<or> GyroThreshold (lastValueRecorded it) (lastValueRead it))
   \<and> record_wanted (it\<lparr>thresholdCheck := Some GpsThreshold\<rparr>) =
       Inr (lastTimeRecorded it = 0 \<or> GpsThreshold (lastValueRecorded it) (lastValueRead it))"
  by (intro conjI record_wanted_sym LightSensorThreshold_sym PressureSensorThreshold_sym
      TemperatureSensorThreshold_sym AccelerometerThreshold_sym GyroThreshold_sym GpsThreshold_sym)

subsection \<open>The light level check without overflow\<close>

text \<open>
  When the difference of the two readings and its negation fit 32 bits, the light level check
  is "absolute difference above 200". The five other checks are binary64 computations: this
  theory idealises them over the reals and states nothing about the values they return at
  the edge of their thresholds, where the rounding of the difference, of the squares and of
  their sum decides.
\<close>

lemma LightSensorThreshold_no_overflow:
  assumes "- (2 ^ 31) < sint a - sint b" "sint a - sint b < 2 ^ 31"
  shows "LightSensorThreshold (Int32 a) (Int32 b) \<longleftrightarrow> \<bar>sint a - sint b\<bar> > 200"
  using sint_abs_int32 [OF assms] by (simp add: LightSensorThreshold_def word_sless_alt)

subsection \<open>One iteration of the sampling loop\<close>

lemma read_and_record_failed_read:
  assumes "read it = Some rd" and "rd w (lastValueRead it) = (r, v)" and "r \<noteq> LE_OK"
  shows "read_and_record w now (it, ref, publish) = Inr (it\<lparr>lastValueRead := v\<rparr>, ref, publish)"
  using assms by (simp add: read_and_record_def call_read_def)

lemma read_and_record_not_wanted:
  assumes "read it = Some rd" and "rd w (lastValueRead it) = (LE_OK, v)"
      and "lastTimeRecorded it \<noteq> 0" and "thresholdCheck it = Some check"
      and "\<not> check v (lastValueRecorded it)"
  shows "read_and_record w now (it, ref, publish) =
           Inr (it\<lparr>lastValueRead := v, lastTimeRead := now\<rparr>, ref, publish)"
  using assms by (simp add: read_and_record_def call_read_def record_wanted_def Let_def)

lemma read_and_record_wanted:
  assumes "read it = Some rd" and "rd w (lastValueRead it) = (LE_OK, v)"
      and "lastTimeRecorded it = 0 \<or> (\<exists>check. thresholdCheck it = Some check \<and> check v (lastValueRecorded it))"
      and "record_fn it = Some rc" and "copyValue it = Some cp"
      and "rc w ref now v = (r, ref')"
  shows "read_and_record w now (it, ref, publish) =
           (if r = LE_OK
            then Inr (it\<lparr>lastValueRead := v, lastTimeRead := now,
                         lastValueRecorded := cp (lastValueRecorded it) v\<rparr>, ref', True)
            else Inr (it\<lparr>lastValueRead := v, lastTimeRead := now\<rparr>, ref', publish))"
proof -
  have "record_wanted (it\<lparr>lastValueRead := v, lastTimeRead := now\<rparr>) = Inr True"
    using assms(3) by (auto simp: record_wanted_def)
  then show ?thesis
    using assms(1,2,4,5,6)
    by (simp add: read_and_record_def call_read_def call_record_def call_copyValue_def Let_def)
qed

lemma read_and_record_lastTimeRecorded:
  assumes "read_and_record w now (it, ref, publish) = Inr (it', ref', publish')"
  shows "lastTimeRecorded it' = lastTimeRecorded it"
proof -
  from assms obtain r it1 where rd: "call_read w it = Inr (r, it1)"
    by (cases "call_read w it") (auto simp: read_and_record_def)
  then have t1: "lastTimeRecorded it1 = lastTimeRecorded it"
    by (auto simp: call_read_def split: option.splits prod.splits)
  have cp: "lastTimeRecorded y = lastTimeRecorded x" if "call_copyValue x = Inr y" for x y
    using that by (auto simp: call_copyValue_def split: option.splits)
  from assms rd have "lastTimeRecorded it' = lastTimeRecorded it1"
    by (auto simp: read_and_record_def Let_def split: if_splits sum.splits prod.splits dest: cp)
  with t1 show ?thesis by simp
qed

lemma sample_item_lastTimeRecorded:
  assumes "sample_item w now lastTimePublished (it, ref, publish) = Inr (it', ref', publish')"
  shows "lastTimeRecorded it' = lastTimeRecorded it"
  using assms
  by (cases "read_and_record w now (it, ref, publish)")
     (auto simp: sample_item_def dest: read_and_record_lastTimeRecorded)

lemma sample_item_first_read:
  assumes "read it = Some rd" and "rd w (lastValueRead it) = (LE_OK, v)"
      and "lastTimeRecorded it = 0"
      and "record_fn it = Some rc" and "copyValue it = Some cp"
      and "rc w ref now v = (r, ref')"
  shows "\<exists>it'.
           sample_item w now lastTimePublished (it, ref, publish)
             = Inr (it', ref', publish \<or> r = LE_OK \<or> publish_forced now lastTimePublished it')
           \<and> lastValueRead it' = v \<and> lastTimeRead it' = now
           \<and> (r = LE_OK \<longrightarrow> lastValueRecorded it' = cp (lastValueRecorded it) v)"
proof -
  have "read_and_record w now (it, ref, publish) =
          (if r = LE_OK
           then Inr (it\<lparr>lastValueRead := v, lastTimeRead := now,
                        lastValueRecorded := cp (lastValueRecorded it) v\<rparr>, ref', True)
           else Inr (it\<lparr>lastValueRead := v, lastTimeRead := now\<rparr>, ref', publish))"
    using assms by (intro read_and_record_wanted [where rd = rd and rc = rc]) simp_all
  then show ?thesis
    by (cases "r = LE_OK") (simp_all add: sample_item_def)
qed

lemma call_copyValue_frame:
  assumes "call_copyValue x = Inr y"
  shows "same_functions x y \<and> lastTimeRecorded y = lastTimeRecorded x
         \<and> lastTimeRead y = lastTimeRead x \<and> lastValueRead y = lastValueRead x"
  using assms by (auto simp: call_copyValue_def same_functions_def split: option.splits)

lemma read_and_record_frame:
  assumes "read_and_record w now (it, ref, publish) = Inr (it', ref', publish')"
  shows "same_functions it it' \<and> (publish \<longrightarrow> publish')"
proof -
  from assms obtain r it1 where rd: "call_read w it = Inr (r, it1)"
    by (cases "call_read w it") (auto simp: read_and_record_def)
  then have t1: "same_functions it it1"
    by (auto simp: call_read_def same_functions_def split: option.splits prod.splits)
  show ?thesis
  proof (cases "r = LE_OK")
    case False
    with assms rd t1 show ?thesis by (simp add: read_and_record_def)
  next
    case ok: True
    let ?it = "it1\<lparr>lastTimeRead := now\<rparr>"
    have t2: "same_functions it ?it" using t1 by (simp add: same_functions_def)
    from assms rd ok obtain wanted where wn: "record_wanted ?it = Inr wanted"
      by (cases "record_wanted ?it") (auto simp: read_and_record_def Let_def)
    show ?thesis
    proof (cases wanted)
      case False
      with assms rd ok wn t2 show ?thesis by (simp add: read_and_record_def Let_def)
    next
      case True
      with assms rd ok wn obtain r' ref1 where rc: "call_record w ?it ref now = Inr (r', ref1)"
        by (cases "call_record w ?it ref now") (auto simp: read_and_record_def Let_def)
      show ?thesis
      proof (cases "r' = LE_OK")
        case False
        with assms rd ok wn True rc t2 show ?thesis by (simp add: read_and_record_def Let_def)
      next
        case True
        with assms rd ok wn \<open>wanted\<close> rc obtain it2 where
          cp: "call_copyValue ?it = Inr it2" and res: "it' = it2" "publish'"
          by (cases "call_copyValue ?it") (auto simp: read_and_record_def Let_def)
        from call_copyValue_frame [OF cp] t2 res show ?thesis
          by (simp add: same_functions_def)
      qed
    qed
  qed
qed

lemma read_and_record_failed_read_all:
  assumes "read it = Some rd" and "\<forall>x. fst (rd w x) \<noteq> LE_OK"
  shows "\<exists>v. read_and_record w now (it, ref, publish) = Inr (it\<lparr>lastValueRead := v\<rparr>, ref, publish)"
proof -
  obtain r v where rv: "rd w (lastValueRead it) = (r, v)" by (cases "rd w (lastValueRead it)")
  with assms(2) have "r \<noteq> LE_OK" by (metis fst_conv)
  from read_and_record_failed_read [OF assms(1) rv this] show ?thesis by blast
qed

lemma sample_item_frame:
  assumes "sample_item w now lastTimePublished (it, ref, publish) = Inr (it', ref', publish')"
  shows "same_functions it it' \<and> lastTimeRecorded it' = lastTimeRecorded it \<and> (publish \<longrightarrow> publish')"
proof -
  from assms obtain p1 where
    1: "read_and_record w now (it, ref, publish) = Inr (it', ref', p1)"
    and 2: "publish' = (if publish_forced now lastTimePublished it' then True else p1)"
    by (cases "read_and_record w now (it, ref, publish)") (auto simp: sample_item_def)
  from read_and_record_frame [OF 1] 2 sample_item_lastTimeRecorded [OF assms] show ?thesis
    by simp
qed

lemma sample_item_failed_read:
  assumes "read it = Some rd" and "\<forall>x. fst (rd w x) \<noteq> LE_OK"
      and "sample_item w now lastTimePublished (it, ref, publish) = Inr (it', ref', publish')"
  shows "lastTimeRead it' = lastTimeRead it \<and> ref' = ref"
  using read_and_record_failed_read_all [OF assms(1,2), of now ref publish] assms(3)
  by (auto simp: sample_item_def)

lemma sample_loop_split:
  assumes "sample_loop w now lastTimePublished its ref publish = Inr (its', ref', publish')"
      and "i < length its"
  shows "length its' = length its \<and>
         (\<exists>refi pubi refi' pubi'.
            sample_loop w now lastTimePublished (take i its) ref publish
              = Inr (take i its', refi, pubi)
            \<and> sample_item w now lastTimePublished (its ! i, refi, pubi)
              = Inr (its' ! i, refi', pubi')
            \<and> sample_loop w now lastTimePublished (take (Suc i) its) ref publish
              = Inr (take (Suc i) its', refi', pubi')
            \<and> (pubi' \<longrightarrow> publish'))"
  using assms
proof (induction its arbitrary: i ref publish its')
  case Nil
  then show ?case by simp
next
  case (Cons it its)
  from Cons.prems(1) obtain it1 ref1 pub1 its1 where
    head: "sample_item w now lastTimePublished (it, ref, publish) = Inr (it1, ref1, pub1)"
    and tail: "sample_loop w now lastTimePublished its ref1 pub1 = Inr (its1, ref', publish')"
    and res: "its' = it1 # its1"
    by (auto split: sum.splits prod.splits)
  have len: "length its1 = length its"
  proof (cases its)
    case Nil
    with tail show ?thesis by simp
  next
    case (Cons a list)
    then have "0 < length its" by simp
    from Cons.IH [OF tail this] show ?thesis by simp
  qed
  have mono: "pub1 \<longrightarrow> publish'"
  proof (cases its)
    case Nil
    with tail show ?thesis by simp
  next
    case (Cons a list)
    then have "0 < length its" by simp
    from Cons.IH [OF tail this] obtain refi' pubi' where
      "sample_item w now lastTimePublished (its ! 0, ref1, pub1) = Inr (its1 ! 0, refi', pubi')"
      "pubi' \<longrightarrow> publish'"
      by auto
    with sample_item_frame [of w now lastTimePublished "its ! 0" ref1 pub1 "its1 ! 0" refi' pubi']
    show ?thesis by blast
  qed
  show ?case
  proof (cases i)
    case 0
    with head tail res len mono show ?thesis by simp
  next
    case (Suc j)
    with Cons.prems(2) have j: "j < length its" by simp
    from Cons.IH [OF tail j] obtain refi pubi refi' pubi' where
      "sample_loop w now lastTimePublished (take j its) ref1 pub1 = Inr (take j its1, refi, pubi)"
      "sample_item w now lastTimePublished (its ! j, refi, pubi) = Inr (its1 ! j, refi', pubi')"
      "sample_loop w now lastTimePublished (take (Suc j) its) ref1 pub1
         = Inr (take (Suc j) its1, refi', pubi')"
      "pubi' \<longrightarrow> publish'"
      by blast
    with head res len Suc show ?thesis by simp
  qed
qed

text \<open>
  Claim C3, as stated, at a pressure item recorded at time 1000 with value 1013: at time 200000
  the sensor reads 1013.5, which does not exceed the threshold, while the max-interval condition
  holds (199000 ms since the last recording, and the reading is newer than the last publish at
  1000). The claim has the sampling pass record the item; it makes no call on the record.
\<close>

theorem force_condition_counterexample:
  "lastTimeRecorded ((Items_init ! 1)\<lparr>lastValueRead := Double 1013, lastValueRecorded := Double 1013,
        lastTimeRecorded := 1000, lastTimeRead := 199000\<rparr>) \<noteq> 0
   \<and> \<not> (sampling_recorded
          ((World_ok 200000)\<lparr>mangOH_ReadPressureSensor := \<lambda>_. (LE_OK, 1013.5)\<rparr>) 200000 1000
          ((Items_init ! 1)\<lparr>lastValueRead := Double 1013, lastValueRecorded := Double 1013,
             lastTimeRecorded := 1000, lastTimeRead := 199000\<rparr>) []
        \<longleftrightarrow>
          PressureSensorThreshold (Double 1013) (Double 1013.5)
          \<or> publish_forced 200000 1000
               ((Items_init ! 1)\<lparr>lastValueRead := Double 1013.5, lastValueRecorded := Double 1013,
                  lastTimeRecorded := 1000, lastTimeRead := 200000\<rparr>))"
  by (simp add: sampling_recorded_def input_defs handler_defs sensor_defs)

text \<open>
  Claim C3, amended. One iteration of the sampling loop records the item if and only if its read
  succeeds and either \<^verbatim>\<open>lastTimeRecorded == 0\<close> or the threshold check holds of the reading and
  the last recorded value. The max-interval condition records nothing: it only makes the
  iteration want a publish, as a successful recording does.
\<close>

theorem sampling_records_iff:
  assumes "read it = Some rd" and "rd w (lastValueRead it) = (r, v)"
      and "thresholdCheck it = Some check"
      and "record_fn it = Some rc" and "copyValue it = Some cp"
      and "rc w ref now v = (r', ref')"
  shows "\<exists>it'.
           sample_item w now lastTimePublished (it, ref, publish)
             = Inr (it',
                    if r = LE_OK \<and> (lastTimeRecorded it = 0 \<or> check v (lastValueRecorded it))
                    then ref' else ref,
                    publish
                    \<or> (r = LE_OK \<and> (lastTimeRecorded it = 0 \<or> check v (lastValueRecorded it))
                        \<and> r' = LE_OK)
                    \<or> publish_forced now lastTimePublished it')"
proof (cases "r = LE_OK")
  case False
  with assms(1,2) show ?thesis
    by (simp add: sample_item_def read_and_record_failed_read [where rd = rd and r = r])
next
  case ok: True
  show ?thesis
  proof (cases "lastTimeRecorded it = 0 \<or> check v (lastValueRecorded it)")
    case True
    then have "read_and_record w now (it, ref, publish) =
          (if r' = LE_OK
           then Inr (it\<lparr>lastValueRead := v, lastTimeRead := now,
                        lastValueRecorded := cp (lastValueRecorded it) v\<rparr>, ref', True)
           else Inr (it\<lparr>lastValueRead := v, lastTimeRead := now\<rparr>, ref', publish))"
      using assms ok by (intro read_and_record_wanted [where rd = rd and rc = rc]) auto
    with True ok show ?thesis
      by (cases "r' = LE_OK") (simp_all add: sample_item_def)
  next
    case False
    then have "read_and_record w now (it, ref, publish) =
           Inr (it\<lparr>lastValueRead := v, lastTimeRead := now\<rparr>, ref, publish)"
      using assms ok by (intro read_and_record_not_wanted [where rd = rd and check = check]) auto
    with False ok show ?thesis
      by (simp add: sample_item_def)
  qed
qed

theorem sampling_records_iff_witness:
  "(\<exists>it'. sample_item ((World_ok 200000)\<lparr>mangOH_ReadPressureSensor := \<lambda>_. (LE_OK, 1013.5)\<rparr>)
             200000 1000
             ((Items_init ! 1)\<lparr>lastValueRead := Double 1013, lastValueRecorded := Double 1013,
                lastTimeRecorded := 1000, lastTimeRead := 199000\<rparr>, [], False)
           = Inr (it', [], True))
   \<and> (\<exists>it'. sample_item ((World_ok 200000)\<lparr>mangOH_ReadPressureSensor := \<lambda>_. (LE_OK, 1020)\<rparr>)
             200000 199000
             ((Items_init ! 1)\<lparr>lastValueRead := Double 1013, lastValueRecorded := Double 1013,
                lastTimeRecorded := 199000, lastTimeRead := 199000\<rparr>, [], False)
           = Inr (it', [(RecordFloat ''MangOH.Sensors.Pressure.Pressure'' 1020 200000, LE_OK)],
                  True))"
proof -
  let ?w1 = "(World_ok 200000)\<lparr>mangOH_ReadPressureSensor := \<lambda>_. (LE_OK, 1013.5)\<rparr>"
  let ?it1 = "(Items_init ! 1)\<lparr>lastValueRead := Double 1013, lastValueRecorded := Double 1013,
                lastTimeRecorded := 1000, lastTimeRead := 199000\<rparr>"
  let ?w2 = "(World_ok 200000)\<lparr>mangOH_ReadPressureSensor := \<lambda>_. (LE_OK, 1020)\<rparr>"
  let ?it2 = "(Items_init ! 1)\<lparr>lastValueRead := Double 1013, lastValueRecorded := Double 1013,
                lastTimeRecorded := 199000, lastTimeRead := 199000\<rparr>"
  have 1: "read ?it1 = Some PressureSensorRead"
    "PressureSensorRead ?w1 (lastValueRead ?it1) = (LE_OK, Double 1013.5)"
    "thresholdCheck ?it1 = Some PressureSensorThreshold"
    "record_fn ?it1 = Some PressureSensorRecord"
    "copyValue ?it1 = Some PressureSensorCopyValue"
    "PressureSensorRecord ?w1 [] 200000 (Double 1013.5) =
       (LE_OK, [(RecordFloat ''MangOH.Sensors.Pressure.Pressure'' 1013.5 200000, LE_OK)])"
    by (simp_all add: input_defs sensor_defs)
  have 2: "read ?it2 = Some PressureSensorRead"
    "PressureSensorRead ?w2 (lastValueRead ?it2) = (LE_OK, Double 1020)"
    "thresholdCheck ?it2 = Some PressureSensorThreshold"
    "record_fn ?it2 = Some PressureSensorRecord"
    "copyValue ?it2 = Some PressureSensorCopyValue"
    "PressureSensorRecord ?w2 [] 200000 (Double 1020) =
       (LE_OK, [(RecordFloat ''MangOH.Sensors.Pressure.Pressure'' 1020 200000, LE_OK)])"
    by (simp_all add: input_defs sensor_defs)
  from sampling_records_iff [OF 1, of 1000 False] sampling_records_iff [OF 2, of 199000 False]
  show ?thesis
    by (simp add: input_defs sensor_defs handler_defs)
qed

subsection \<open>The stale items and the push\<close>

lemma stale_item_eq:
  assumes "record_fn it = Some rc" and "copyValue it = Some cp"
      and "rc w ref (lastTimeRead it) (lastValueRead it) = (r, ref')"
  shows "stale_item w now (it, ref) =
           (if now - lastTimeRecorded it > 60000 \<and> lastTimeRead it > lastTimeRecorded it then
              Inr (if r = LE_OK
                   then it\<lparr>lastValueRecorded := cp (lastValueRecorded it) (lastValueRead it),
                           lastTimeRecorded := lastTimeRead it\<rparr>
                   else it, ref')
            else Inr (it, ref))"
  using assms
  by (simp add: stale_item_def is_stale_def call_record_def call_copyValue_def TimeToStale_def)

lemma stale_loop_nth:
  assumes "stale_loop w now its ref = Inr (its', ref')"
  shows "length its' = length its \<and>
         (\<forall>i<length its. \<exists>refi refi'. stale_item w now (its ! i, refi) = Inr (its' ! i, refi'))"
  using assms
proof (induction its arbitrary: ref its')
  case Nil
  then show ?case by simp
next
  case (Cons it its)
  from Cons.prems obtain it1 ref1 its1 where
    head: "stale_item w now (it, ref) = Inr (it1, ref1)"
    and tail: "stale_loop w now its ref1 = Inr (its1, ref')"
    and res: "its' = it1 # its1"
    by (auto split: sum.splits prod.splits)
  from Cons.IH [OF tail] have len: "length its1 = length its"
    and nth: "\<And>i. i < length its \<Longrightarrow>
               \<exists>refi refi'. stale_item w now (its ! i, refi) = Inr (its1 ! i, refi')"
    by blast+
  have "\<exists>refi refi'. stale_item w now ((it # its) ! i, refi) = Inr (its' ! i, refi')"
    if "i < length (it # its)" for i
  proof (cases i)
    case 0
    with head res show ?thesis by auto
  next
    case (Suc j)
    with that nth [of j] res show ?thesis by simp
  qed
  with len res show ?case by simp
qed

lemma publish_step_pushed:
  assumes "publish_step w now publish s = Inr s'" and "PushLog s' \<noteq> PushLog s"
  shows "(publish \<or> DeferredPublish s) \<and> \<not> now - LastTimePublished s < 10
         \<and> stale_loop w now (Items s) (RecordRef s) = Inr (Items s', RecordRef s')
         \<and> PushLog s' = PushLog s @ [(RecordRef s', le_avdata_Push w (RecordRef s'))]
         \<and> (if le_avdata_Push w (RecordRef s') = LE_OK
            then LastTimePublished s' = now \<and> \<not> DeferredPublish s'
            else LastTimePublished s' = LastTimePublished s
                 \<and> DeferredPublish s' = DeferredPublish s)"
proof (cases "publish \<or> DeferredPublish s")
  case False
  with assms show ?thesis by (auto simp: publish_step_def)
next
  case want: True
  show ?thesis
  proof (cases "now - LastTimePublished s < 10")
    case True
    with want assms show ?thesis
      by (auto simp: publish_step_def MinIntervalBetweenPublish_def)
  next
    case False
    with want assms(1) obtain its ref where
      sweep: "stale_loop w now (Items s) (RecordRef s) = Inr (its, ref)"
      by (cases "stale_loop w now (Items s) (RecordRef s)")
         (auto simp: publish_step_def MinIntervalBetweenPublish_def)
    show ?thesis
    proof (cases "le_avdata_Push w ref = LE_OK")
      case True
      with want False sweep assms(1) have
        "s' = s\<lparr>Items := its, RecordRef := ref, PushLog := PushLog s @ [(ref, LE_OK)],
                LastTimePublished := now, DeferredPublish := False\<rparr>"
        by (simp add: publish_step_def MinIntervalBetweenPublish_def le_avdata_PushRecord_def Let_def)
      with want False sweep True show ?thesis by simp
    next
      case fail: False
      with want False sweep assms(1) have
        "s' = s\<lparr>Items := its, RecordRef := ref,
                PushLog := PushLog s @ [(ref, le_avdata_Push w ref)]\<rparr>"
        by (simp add: publish_step_def MinIntervalBetweenPublish_def le_avdata_PushRecord_def Let_def)
      with want False sweep fail show ?thesis by simp
    qed
  qed
qed

lemma SampleTimerHandler_Inr:
  assumes "SampleTimerHandler w s = Inr s'"
  shows "\<exists>its ref publish.
           sample_loop w (GetCurrentTimestamp w) (LastTimePublished s) (Items s) (RecordRef s) False
             = Inr (its, ref, publish)
           \<and> publish_step w (GetCurrentTimestamp w) publish (s\<lparr>Items := its, RecordRef := ref\<rparr>)
               = Inr s'"
  using assms
  by (cases "sample_loop w (GetCurrentTimestamp w) (LastTimePublished s) (Items s) (RecordRef s) False")
     (auto simp: SampleTimerHandler_def)

lemma publish_step_deferred:
  assumes "publish \<or> DeferredPublish s" and "now - LastTimePublished s < 10"
  shows "publish_step w now publish s = Inr (s\<lparr>DeferredPublish := True\<rparr>)"
  using assms by (simp add: publish_step_def MinIntervalBetweenPublish_def)

subsection \<open>From startup to the first successful read\<close>

lemma stale_item_frame:
  assumes "stale_item w now (it, ref) = Inr (it', ref')"
  shows "same_functions it it' \<and> (lastTimeRead it = 0 \<longrightarrow> it' = it)"
proof (cases "is_stale now it")
  case False
  with assms show ?thesis by (simp add: stale_item_def same_functions_def)
next
  case True
  then have nz: "lastTimeRead it \<noteq> 0"
    by (auto simp: is_stale_def)
  from assms True obtain r ref1 where rc: "call_record w it ref (lastTimeRead it) = Inr (r, ref1)"
    by (cases "call_record w it ref (lastTimeRead it)") (auto simp: stale_item_def)
  show ?thesis
  proof (cases "r = LE_OK")
    case False
    with assms True rc nz show ?thesis by (simp add: stale_item_def same_functions_def)
  next
    case ok: True
    with assms True rc obtain it2 where cp: "call_copyValue it = Inr it2"
      and res: "it' = it2\<lparr>lastTimeRecorded := lastTimeRead it2\<rparr>"
      by (cases "call_copyValue it") (auto simp: stale_item_def)
    from call_copyValue_frame [OF cp] res nz show ?thesis
      by (simp add: same_functions_def)
  qed
qed

lemma publish_step_items:
  assumes "publish_step w now publish s = Inr s'"
  shows "Items s' = Items s
         \<or> (\<exists>ref. stale_loop w now (Items s) (RecordRef s) = Inr (Items s', ref))"
proof (cases "PushLog s' = PushLog s")
  case False
  from publish_step_pushed [OF assms False] show ?thesis by blast
next
  case same: True
  show ?thesis
  proof (cases "publish \<or> DeferredPublish s")
    case False
    with assms show ?thesis by (auto simp: publish_step_def)
  next
    case want: True
    show ?thesis
    proof (cases "now - LastTimePublished s < 10")
      case True
      with want assms show ?thesis
        by (auto simp: publish_step_def MinIntervalBetweenPublish_def)
    next
      case False
      with want assms obtain its ref where
        sweep: "stale_loop w now (Items s) (RecordRef s) = Inr (its, ref)"
        by (cases "stale_loop w now (Items s) (RecordRef s)")
           (auto simp: publish_step_def MinIntervalBetweenPublish_def)
      with want False assms have "PushLog s' = PushLog s @ [(ref, le_avdata_Push w ref)]"
        by (auto simp: publish_step_def MinIntervalBetweenPublish_def le_avdata_PushRecord_def
            Let_def split: if_splits)
      with same show ?thesis by simp
    qed
  qed
qed

lemma SampleTimerHandler_item:
  assumes "SampleTimerHandler w s = Inr s'" and "i < length (Items s)"
  shows "length (Items s') = length (Items s)
         \<and> same_functions (Items s ! i) (Items s' ! i)
         \<and> (\<forall>rd. read (Items s ! i) = Some rd \<and> (\<forall>x. fst (rd w x) \<noteq> LE_OK)
                   \<and> lastTimeRead (Items s ! i) = 0 \<and> lastTimeRecorded (Items s ! i) = 0
               \<longrightarrow> lastTimeRead (Items s' ! i) = 0 \<and> lastTimeRecorded (Items s' ! i) = 0)"
proof -
  let ?now = "GetCurrentTimestamp w"
  from SampleTimerHandler_Inr [OF assms(1)] obtain its ref publish where
    loop: "sample_loop w ?now (LastTimePublished s) (Items s) (RecordRef s) False
             = Inr (its, ref, publish)"
    and step: "publish_step w ?now publish (s\<lparr>Items := its, RecordRef := ref\<rparr>) = Inr s'"
    by blast
  from sample_loop_split [OF loop assms(2)] obtain refi pubi refi' pubi' where
    len: "length its = length (Items s)"
    and it: "sample_item w ?now (LastTimePublished s) (Items s ! i, refi, pubi)
               = Inr (its ! i, refi', pubi')"
    by blast
  note f1 = sample_item_frame [OF it]
  have a: "same_functions (Items s ! i) (its ! i)" using f1 by simp
  have b: "lastTimeRead (its ! i) = 0 \<and> lastTimeRecorded (its ! i) = 0"
    if "read (Items s ! i) = Some rd" "\<forall>x. fst (rd w x) \<noteq> LE_OK"
      "lastTimeRead (Items s ! i) = 0" "lastTimeRecorded (Items s ! i) = 0" for rd
    using sample_item_failed_read [OF that(1,2) it] f1 that(3,4) by simp
  from publish_step_items [OF step]
  have "Items s' = its \<or> (\<exists>ref'. stale_loop w ?now its ref = Inr (Items s', ref'))"
    by simp
  then show ?thesis
  proof
    assume "Items s' = its"
    with len a b show ?thesis by auto
  next
    assume "\<exists>ref'. stale_loop w ?now its ref = Inr (Items s', ref')"
    then obtain ref' where sweep: "stale_loop w ?now its ref = Inr (Items s', ref')" by blast
    from stale_loop_nth [OF sweep] assms(2) len obtain r1 r2 where
      len2: "length (Items s') = length its"
      and st: "stale_item w ?now (its ! i, r1) = Inr (Items s' ! i, r2)"
      by auto
    note f2 = stale_item_frame [OF st]
    from a f2 have "same_functions (Items s ! i) (Items s' ! i)"
      by (simp add: same_functions_def)
    moreover have "lastTimeRead (Items s' ! i) = 0 \<and> lastTimeRecorded (Items s' ! i) = 0"
      if "read (Items s ! i) = Some rd" "\<forall>x. fst (rd w x) \<noteq> LE_OK"
        "lastTimeRead (Items s ! i) = 0" "lastTimeRecorded (Items s ! i) = 0" for rd
      using b [OF that] f2 by simp
    ultimately show ?thesis using len len2 by auto
  qed
qed

lemma run_ticks_never_read:
  assumes "run_ticks ws s0 = Inr s" and "i < length (Items s0)"
      and "read (Items s0 ! i) = Some rd" and "\<forall>w \<in> set ws. \<forall>x. fst (rd w x) \<noteq> LE_OK"
      and "lastTimeRead (Items s0 ! i) = 0" and "lastTimeRecorded (Items s0 ! i) = 0"
  shows "length (Items s) = length (Items s0) \<and> same_functions (Items s0 ! i) (Items s ! i)
         \<and> lastTimeRead (Items s ! i) = 0 \<and> lastTimeRecorded (Items s ! i) = 0"
  using assms
proof (induction ws arbitrary: s0)
  case Nil
  then show ?case by (simp add: same_functions_def)
next
  case (Cons w ws)
  from Cons.prems(1) obtain s1 where tick: "SampleTimerHandler w s0 = Inr s1"
    and rest: "run_ticks ws s1 = Inr s"
    by (cases "SampleTimerHandler w s0") auto
  from Cons.prems(4) have fail: "\<forall>x. fst (rd w x) \<noteq> LE_OK" by simp
  from SampleTimerHandler_item [OF tick Cons.prems(2)] Cons.prems(3,5,6) fail
  have len: "length (Items s1) = length (Items s0)"
    and same: "same_functions (Items s0 ! i) (Items s1 ! i)"
    and zero: "lastTimeRead (Items s1 ! i) = 0" "lastTimeRecorded (Items s1 ! i) = 0"
    by blast+
  from same Cons.prems(3) have rd1: "read (Items s1 ! i) = Some rd"
    by (simp add: same_functions_def)
  from Cons.prems(2) len have i1: "i < length (Items s1)" by simp
  from Cons.prems(4) have fails: "\<forall>w \<in> set ws. \<forall>x. fst (rd w x) \<noteq> LE_OK" by simp
  from Cons.IH [OF rest i1 rd1 fails zero] len same show ?case
    by (simp add: same_functions_def)
qed

text \<open>The registry starts with every item never read and never recorded.\<close>

lemma State_init_never_read:
  "list_all (\<lambda>it. lastTimeRead it = 0 \<and> lastTimeRecorded it = 0) (Items State_init)"
  by (simp add: State_init_def Items_init_def)

text \<open>
  Claim C7. Take a run of ticks from a state in which an item has never been read nor recorded
  (both its times are 0, as in the registry's initialiser), all of whose reads of that item
  fail, and a next tick in which its read succeeds, neither crashing. Then in that tick, when
  the sampling loop reaches the item, the item's record function is called on the reading with
  the tick's time, on the record as the items before it left it, and what it returns is the
  record that the items after it receive; the reading and the time are stored; and when the
  record function succeeds, the reading is copied to \<^verbatim>\<open>lastValueRecorded\<close> and the loop ends
  wanting a publish. Nothing is assumed of the item's threshold check, which may be null: it
  is not called.
\<close>

theorem first_read_after_startup_recorded:
  assumes "i < length (Items s0)"
      and "lastTimeRead (Items s0 ! i) = 0" and "lastTimeRecorded (Items s0 ! i) = 0"
      and "read (Items s0 ! i) = Some rd" and "record_fn (Items s0 ! i) = Some rc"
      and "copyValue (Items s0 ! i) = Some cp"
      and "\<forall>w \<in> set ws. \<forall>x. fst (rd w x) \<noteq> LE_OK"
      and "run_ticks ws s0 = Inr s"
      and "SampleTimerHandler w s = Inr s'"
      and "rd w (lastValueRead (Items s ! i)) = (LE_OK, v)"
  shows "\<exists>its ref publish refi pubi r refi' pubi'.
           sample_loop w (GetCurrentTimestamp w) (LastTimePublished s) (Items s) (RecordRef s) False
             = Inr (its, ref, publish)
           \<and> publish_step w (GetCurrentTimestamp w) publish (s\<lparr>Items := its, RecordRef := ref\<rparr>)
               = Inr s'
           \<and> sample_loop w (GetCurrentTimestamp w) (LastTimePublished s) (take i (Items s))
                (RecordRef s) False
               = Inr (take i its, refi, pubi)
           \<and> rc w refi (GetCurrentTimestamp w) v = (r, refi')
           \<and> sample_loop w (GetCurrentTimestamp w) (LastTimePublished s) (take (Suc i) (Items s))
                (RecordRef s) False
               = Inr (take (Suc i) its, refi', pubi')
           \<and> lastValueRead (its ! i) = v \<and> lastTimeRead (its ! i) = GetCurrentTimestamp w
           \<and> (r = LE_OK \<longrightarrow>
                 lastValueRecorded (its ! i) = cp (lastValueRecorded (Items s ! i)) v \<and> publish)"
proof -
  let ?now = "GetCurrentTimestamp w"
  let ?it = "Items s ! i"
  from run_ticks_never_read [OF assms(8,1,4,7,2,3)]
  have len: "length (Items s) = length (Items s0)"
    and same: "same_functions (Items s0 ! i) ?it"
    and zero: "lastTimeRecorded ?it = 0"
    by simp_all
  from same assms(4,5,6) have fns: "read ?it = Some rd" "record_fn ?it = Some rc"
    "copyValue ?it = Some cp"
    by (simp_all add: same_functions_def)
  from len assms(1) have i: "i < length (Items s)" by simp
  from SampleTimerHandler_Inr [OF assms(9)] obtain its ref publish where
    loop: "sample_loop w ?now (LastTimePublished s) (Items s) (RecordRef s) False
             = Inr (its, ref, publish)"
    and step: "publish_step w ?now publish (s\<lparr>Items := its, RecordRef := ref\<rparr>) = Inr s'"
    by blast
  from sample_loop_split [OF loop i] obtain refi pubi refi' pubi' where
    pre: "sample_loop w ?now (LastTimePublished s) (take i (Items s)) (RecordRef s) False
            = Inr (take i its, refi, pubi)"
    and it: "sample_item w ?now (LastTimePublished s) (?it, refi, pubi) = Inr (its ! i, refi', pubi')"
    and post: "sample_loop w ?now (LastTimePublished s) (take (Suc i) (Items s)) (RecordRef s) False
            = Inr (take (Suc i) its, refi', pubi')"
    and mono: "pubi' \<longrightarrow> publish"
    by blast
  obtain r ref1 where rc: "rc w refi ?now v = (r, ref1)" by (cases "rc w refi ?now v")
  from sample_item_first_read [OF fns(1) assms(10) zero fns(2,3) rc, of "LastTimePublished s" pubi] it
  have "ref1 = refi'" "lastValueRead (its ! i) = v" "lastTimeRead (its ! i) = ?now"
    "r = LE_OK \<longrightarrow> lastValueRecorded (its ! i) = cp (lastValueRecorded ?it) v \<and> pubi'"
    by auto
  with loop step pre post mono rc show ?thesis by blast
qed

theorem first_read_after_startup_recorded_witness:
  "\<exists>s s'. run_ticks [(World_ok 1000000)\<lparr>mangOH_ReadPressureSensor := \<lambda>x. (LE_FAULT, x)\<rparr>]
             (State_init\<lparr>Items := [(Items_init ! 1)\<lparr>thresholdCheck := None\<rparr>, Items_init ! 2]\<rparr>)
           = Inr s
         \<and> lastTimeRecorded (Items s ! 0) = 0 \<and> lastTimeRead (Items s ! 0) = 0
         \<and> RecordRef s =
             [(RecordFloat ''MangOH.Sensors.Pressure.Temperature'' 20 1000000, LE_OK),
              (RecordFloat ''MangOH.Sensors.Pressure.Temperature'' 20 1000000, LE_OK)]
         \<and> SampleTimerHandler (World_ok 1001000) s = Inr s'
         \<and> RecordRef s' =
             RecordRef s @ [(RecordFloat ''MangOH.Sensors.Pressure.Pressure'' 1013 1001000, LE_OK),
                (RecordFloat ''MangOH.Sensors.Pressure.Pressure'' 1013 1001000, LE_OK)]
         \<and> lastValueRecorded (Items s' ! 0) = Double 1013"
proof -
  let ?w1 = "(World_ok 1000000)\<lparr>mangOH_ReadPressureSensor := \<lambda>x. (LE_FAULT, x)\<rparr>"
  let ?start = "State_init\<lparr>Items := [(Items_init ! 1)\<lparr>thresholdCheck := None\<rparr>, Items_init ! 2]\<rparr>"
  let ?rec = "[(RecordFloat ''MangOH.Sensors.Pressure.Temperature'' 20 1000000, LE_OK),
              (RecordFloat ''MangOH.Sensors.Pressure.Temperature'' 20 1000000, LE_OK)]"
  let ?mid = "State_init\<lparr>Items :=
               [(Items_init ! 1)\<lparr>thresholdCheck := None\<rparr>,
                (Items_init ! 2)\<lparr>lastValueRead := Double 20, lastValueRecorded := Double 20,
                   lastTimeRecorded := 1000000, lastTimeRead := 1000000\<rparr>],
             RecordRef := ?rec, LastTimePublished := 1000000, PushLog := [(?rec, LE_OK)]\<rparr>"
  have run: "run_ticks [?w1] ?start = Inr ?mid"
    by (simp add: input_defs handler_defs sensor_defs)
  have s: "lastTimeRecorded (Items ?mid ! 0) = 0" "lastTimeRead (Items ?mid ! 0) = 0" "RecordRef ?mid = ?rec"
    by (simp_all add: input_defs)
  obtain s' where tick: "SampleTimerHandler (World_ok 1001000) ?mid = Inr s'"
    and s': "RecordRef s' =
             RecordRef ?mid @ [(RecordFloat ''MangOH.Sensors.Pressure.Pressure'' 1013 1001000, LE_OK),
                (RecordFloat ''MangOH.Sensors.Pressure.Pressure'' 1013 1001000, LE_OK)]"
      "lastValueRecorded (Items s' ! 0) = Double 1013"
    by (simp add: input_defs handler_defs sensor_defs)
  have pre: "0 < length (Items ?start)" "lastTimeRead (Items ?start ! 0) = 0"
    "lastTimeRecorded (Items ?start ! 0) = 0"
    "read (Items ?start ! 0) = Some PressureSensorRead"
    "record_fn (Items ?start ! 0) = Some PressureSensorRecord"
    "copyValue (Items ?start ! 0) = Some PressureSensorCopyValue"
    "\<forall>w \<in> set [?w1]. \<forall>x. fst (PressureSensorRead w x) \<noteq> LE_OK"
    by (simp_all add: input_defs sensor_defs)
  have ok: "PressureSensorRead (World_ok 1001000) (lastValueRead (Items ?mid ! 0)) = (LE_OK, Double 1013)"
    by (simp add: input_defs sensor_defs)
  have found: "run_ticks [?w1] ?start = Inr ?mid
         \<and> lastTimeRecorded (Items ?mid ! 0) = 0 \<and> lastTimeRead (Items ?mid ! 0) = 0
         \<and> RecordRef ?mid = ?rec
         \<and> SampleTimerHandler (World_ok 1001000) ?mid = Inr s'
         \<and> RecordRef s' =
             RecordRef ?mid @ [(RecordFloat ''MangOH.Sensors.Pressure.Pressure'' 1013 1001000, LE_OK),
                (RecordFloat ''MangOH.Sensors.Pressure.Pressure'' 1013 1001000, LE_OK)]
         \<and> lastValueRecorded (Items s' ! 0) = Double 1013"
    using run s tick s' by (intro conjI)
  have ex: ?thesis
    by (rule exI, rule exI, rule found)
  from first_read_after_startup_recorded [OF pre run tick ok] show ?thesis
    by (simp only: ex)
qed

subsection \<open>The push and the sweep before it\<close>

text \<open>
  Claim C6. In a tick that calls \<^verbatim>\<open>le_avdata_PushRecord\<close>, the call is the last thing done to the
  record; when it returns \<^verbatim>\<open>LE_OK\<close> the tick ends with \<^verbatim>\<open>LastTimePublished\<close> at the tick's
  time and \<^verbatim>\<open>DeferredPublish\<close> false, and when it returns anything else both are as they
  were before the tick.
\<close>

theorem flush_outcome:
  assumes "SampleTimerHandler w s = Inr s'" and "PushLog s' \<noteq> PushLog s"
  shows "PushLog s' = PushLog s @ [(RecordRef s', le_avdata_Push w (RecordRef s'))]
         \<and> (if le_avdata_Push w (RecordRef s') = LE_OK
            then LastTimePublished s' = GetCurrentTimestamp w \<and> \<not> DeferredPublish s'
            else LastTimePublished s' = LastTimePublished s
                 \<and> DeferredPublish s' = DeferredPublish s)"
proof -
  from SampleTimerHandler_Inr [OF assms(1)] obtain its ref publish where
    step: "publish_step w (GetCurrentTimestamp w) publish (s\<lparr>Items := its, RecordRef := ref\<rparr>) = Inr s'"
    by blast
  from assms(2) have "PushLog s' \<noteq> PushLog (s\<lparr>Items := its, RecordRef := ref\<rparr>)"
    by simp
  from publish_step_pushed [OF step this] show ?thesis
    by simp
qed

theorem flush_outcome_witness:
  "(\<exists>s'. SampleTimerHandler (World_ok 1000000) (State_init\<lparr>Items := [Items_init ! 1]\<rparr>) = Inr s'
         \<and> PushLog s' \<noteq> PushLog (State_init\<lparr>Items := [Items_init ! 1]\<rparr>)
         \<and> le_avdata_Push (World_ok 1000000) (RecordRef s') = LE_OK
         \<and> LastTimePublished s' = 1000000 \<and> \<not> DeferredPublish s')
   \<and> (\<exists>s'. SampleTimerHandler ((World_ok 1000000)\<lparr>le_avdata_Push := \<lambda>_. LE_FAULT\<rparr>)
              (State_init\<lparr>Items := [Items_init ! 1], DeferredPublish := True,
                            LastTimePublished := 5000\<rparr>) = Inr s'
         \<and> PushLog s' = [(RecordRef s', LE_FAULT)]
         \<and> LastTimePublished s' = 5000 \<and> DeferredPublish s')"
proof -
  let ?w = "World_ok 1000000"
  let ?s = "State_init\<lparr>Items := [Items_init ! 1]\<rparr>"
  let ?w2 = "(World_ok 1000000)\<lparr>le_avdata_Push := \<lambda>_. LE_FAULT\<rparr>"
  let ?s2 = "State_init\<lparr>Items := [Items_init ! 1], DeferredPublish := True,
                            LastTimePublished := 5000\<rparr>"
  obtain s' where 1: "SampleTimerHandler ?w ?s = Inr s'" "PushLog s' \<noteq> PushLog ?s"
    and ok: "le_avdata_Push ?w (RecordRef s') = LE_OK"
    by (simp add: input_defs handler_defs sensor_defs)
  obtain s2' where 2: "SampleTimerHandler ?w2 ?s2 = Inr s2'" "PushLog s2' \<noteq> PushLog ?s2"
    and fail: "le_avdata_Push ?w2 (RecordRef s2') = LE_FAULT"
    by (simp add: input_defs handler_defs sensor_defs)
  from flush_outcome [OF 1] ok have "LastTimePublished s' = 1000000 \<and> \<not> DeferredPublish s'"
    by (simp add: World_ok_def)
  moreover from flush_outcome [OF 2] fail
  have "PushLog s2' = [(RecordRef s2', LE_FAULT)] \<and> LastTimePublished s2' = 5000 \<and> DeferredPublish s2'"
    by (simp add: State_init_def)
  ultimately show ?thesis
    using 1 2 ok by blast
qed

text \<open>
  Claim C5, as stated, at a pressure item last recorded at time 1000 and last read at time 2000
  (the reads since then failed), swept at time 100000: the item is stale, its reading is
  recorded with timestamp 2000, and \<^verbatim>\<open>lastTimeRecorded\<close> becomes 2000, the time of the read, not
  the time of the tick.
\<close>

theorem sweep_sets_read_time_counterexample:
  "is_stale 100000 ((Items_init ! 1)\<lparr>lastValueRead := Double 1013.5,
        lastValueRecorded := Double 1013, lastTimeRecorded := 1000, lastTimeRead := 2000\<rparr>)
   \<and> stale_item (World_ok 100000) (GetCurrentTimestamp (World_ok 100000))
        ((Items_init ! 1)\<lparr>lastValueRead := Double 1013.5,
           lastValueRecorded := Double 1013, lastTimeRecorded := 1000, lastTimeRead := 2000\<rparr>, [])
      = Inr ((Items_init ! 1)\<lparr>lastValueRead := Double 1013.5,
                lastValueRecorded := Double 1013.5, lastTimeRecorded := 2000, lastTimeRead := 2000\<rparr>,
             [(RecordFloat ''MangOH.Sensors.Pressure.Pressure'' 1013.5 2000, LE_OK)])
   \<and> (2000 :: uint64_t) \<noteq> GetCurrentTimestamp (World_ok 100000)"
  by (simp add: input_defs handler_defs sensor_defs)

text \<open>
  Claim C5, amended. An item is swept when more than \<^verbatim>\<open>TimeToStale * 1000\<close> ms have passed since
  \<^verbatim>\<open>lastTimeRecorded\<close> and \<^verbatim>\<open>lastTimeRead\<close> is later than \<^verbatim>\<open>lastTimeRecorded\<close>: its record
  function is called on \<^verbatim>\<open>lastValueRead\<close> with timestamp \<^verbatim>\<open>lastTimeRead\<close>; on success
  \<^verbatim>\<open>lastValueRead\<close> is copied to \<^verbatim>\<open>lastValueRecorded\<close> and \<^verbatim>\<open>lastTimeRecorded\<close> becomes
  \<^verbatim>\<open>lastTimeRead\<close>; on failure, and when the item is not stale, the item is left as it was.
  In a tick that pushes, the sweep runs over every item after the sampling loop, and the record
  pushed is the record as the sweep left it.
\<close>

theorem stale_sweep:
  "(record_fn it = Some rc \<and> copyValue it = Some cp
      \<and> rc w ref (lastTimeRead it) (lastValueRead it) = (r, ref') \<longrightarrow>
      stale_item w now (it, ref) =
        (if now - lastTimeRecorded it > 60000 \<and> lastTimeRead it > lastTimeRecorded it then
           Inr (if r = LE_OK
                then it\<lparr>lastValueRecorded := cp (lastValueRecorded it) (lastValueRead it),
                        lastTimeRecorded := lastTimeRead it\<rparr>
                else it, ref')
         else Inr (it, ref)))
   \<and> (SampleTimerHandler w s = Inr s' \<and> PushLog s' \<noteq> PushLog s \<longrightarrow>
        (\<exists>its rec publish.
           sample_loop w (GetCurrentTimestamp w) (LastTimePublished s) (Items s) (RecordRef s) False
             = Inr (its, rec, publish)
           \<and> stale_loop w (GetCurrentTimestamp w) its rec = Inr (Items s', RecordRef s')
           \<and> length (Items s') = length its
           \<and> (\<forall>i<length its. \<exists>refi refi'.
                 stale_item w (GetCurrentTimestamp w) (its ! i, refi) = Inr (Items s' ! i, refi'))
           \<and> PushLog s' = PushLog s @ [(RecordRef s', le_avdata_Push w (RecordRef s'))]))"
proof (intro conjI impI)
  assume "record_fn it = Some rc \<and> copyValue it = Some cp
      \<and> rc w ref (lastTimeRead it) (lastValueRead it) = (r, ref')"
  then have "record_fn it = Some rc" "copyValue it = Some cp"
    "rc w ref (lastTimeRead it) (lastValueRead it) = (r, ref')"
    by simp_all
  then show "stale_item w now (it, ref) =
        (if now - lastTimeRecorded it > 60000 \<and> lastTimeRead it > lastTimeRecorded it then
           Inr (if r = LE_OK
                then it\<lparr>lastValueRecorded := cp (lastValueRecorded it) (lastValueRead it),
                        lastTimeRecorded := lastTimeRead it\<rparr>
                else it, ref')
         else Inr (it, ref))"
    by (rule stale_item_eq)
next
  assume a: "SampleTimerHandler w s = Inr s' \<and> PushLog s' \<noteq> PushLog s"
  with SampleTimerHandler_Inr [of w s s'] obtain its rec publish where
    loop: "sample_loop w (GetCurrentTimestamp w) (LastTimePublished s) (Items s) (RecordRef s) False
             = Inr (its, rec, publish)"
    and step: "publish_step w (GetCurrentTimestamp w) publish (s\<lparr>Items := its, RecordRef := rec\<rparr>) = Inr s'"
    by blast
  from a have "PushLog s' \<noteq> PushLog (s\<lparr>Items := its, RecordRef := rec\<rparr>)"
    by simp
  from publish_step_pushed [OF step this] have
    sweep: "stale_loop w (GetCurrentTimestamp w) its rec = Inr (Items s', RecordRef s')"
    and log: "PushLog s' = PushLog s @ [(RecordRef s', le_avdata_Push w (RecordRef s'))]"
    by simp_all
  from stale_loop_nth [OF sweep] loop sweep log
  show "\<exists>its rec publish.
           sample_loop w (GetCurrentTimestamp w) (LastTimePublished s) (Items s) (RecordRef s) False
             = Inr (its, rec, publish)
           \<and> stale_loop w (GetCurrentTimestamp w) its rec = Inr (Items s', RecordRef s')
           \<and> length (Items s') = length its
           \<and> (\<forall>i<length its. \<exists>refi refi'.
                 stale_item w (GetCurrentTimestamp w) (its ! i, refi) = Inr (Items s' ! i, refi'))
           \<and> PushLog s' = PushLog s @ [(RecordRef s', le_avdata_Push w (RecordRef s'))]"
    by blast
qed

theorem stale_sweep_witness:
  "stale_item (World_ok 100000) 100000
        ((Items_init ! 1)\<lparr>lastValueRead := Double 1013.5,
           lastValueRecorded := Double 1013, lastTimeRecorded := 1000, lastTimeRead := 2000\<rparr>, [])
      = Inr ((Items_init ! 1)\<lparr>lastValueRead := Double 1013.5,
                lastValueRecorded := Double 1013.5, lastTimeRecorded := 2000, lastTimeRead := 2000\<rparr>,
             [(RecordFloat ''MangOH.Sensors.Pressure.Pressure'' 1013.5 2000, LE_OK)])
   \<and> (\<exists>s'. SampleTimerHandler (World_ok 1000000) (State_init\<lparr>Items := [Items_init ! 1]\<rparr>) = Inr s'
         \<and> PushLog s' \<noteq> PushLog (State_init\<lparr>Items := [Items_init ! 1]\<rparr>)
         \<and> stale_loop (World_ok 1000000) 1000000
              [(Items_init ! 1)\<lparr>lastValueRead := Double 1013, lastValueRecorded := Double 1013,
                  lastTimeRead := 1000000\<rparr>]
              [(RecordFloat ''MangOH.Sensors.Pressure.Pressure'' 1013 1000000, LE_OK)]
            = Inr (Items s', RecordRef s')
         \<and> RecordRef s' =
             [(RecordFloat ''MangOH.Sensors.Pressure.Pressure'' 1013 1000000, LE_OK),
              (RecordFloat ''MangOH.Sensors.Pressure.Pressure'' 1013 1000000, LE_OK)]
         \<and> PushLog s' = [(RecordRef s', LE_OK)])"
proof -
  let ?w = "World_ok 1000000"
  let ?s = "State_init\<lparr>Items := [Items_init ! 1]\<rparr>"
  let ?it = "(Items_init ! 1)\<lparr>lastValueRead := Double 1013.5,
           lastValueRecorded := Double 1013, lastTimeRecorded := 1000, lastTimeRead := 2000\<rparr>"
  have it: "record_fn ?it = Some PressureSensorRecord \<and> copyValue ?it = Some PressureSensorCopyValue
      \<and> PressureSensorRecord (World_ok 100000) [] (lastTimeRead ?it) (lastValueRead ?it) =
          (LE_OK, [(RecordFloat ''MangOH.Sensors.Pressure.Pressure'' 1013.5 2000, LE_OK)])"
    by (simp add: input_defs sensor_defs)
  obtain s' where run: "SampleTimerHandler ?w ?s = Inr s' \<and> PushLog s' \<noteq> PushLog ?s"
    and ref: "RecordRef s' =
             [(RecordFloat ''MangOH.Sensors.Pressure.Pressure'' 1013 1000000, LE_OK),
              (RecordFloat ''MangOH.Sensors.Pressure.Pressure'' 1013 1000000, LE_OK)]"
    by (simp add: input_defs handler_defs sensor_defs)
  have loop: "sample_loop ?w (GetCurrentTimestamp ?w) (LastTimePublished ?s) (Items ?s) (RecordRef ?s) False
      = Inr ([(Items_init ! 1)\<lparr>lastValueRead := Double 1013, lastValueRecorded := Double 1013,
                  lastTimeRead := 1000000\<rparr>],
             [(RecordFloat ''MangOH.Sensors.Pressure.Pressure'' 1013 1000000, LE_OK)], True)"
    by (simp add: input_defs handler_defs sensor_defs)
  note item = stale_sweep [where it = "?it" and rc = PressureSensorRecord
      and cp = PressureSensorCopyValue and w = "World_ok 100000" and ref = "[]" and r = LE_OK
      and ref' = "[(RecordFloat ''MangOH.Sensors.Pressure.Pressure'' 1013.5 2000, LE_OK)]"
      and now = 100000]
  note tick = stale_sweep [where w = "?w" and s = "?s" and s' = s']
  from item it have 1: "stale_item (World_ok 100000) 100000 (?it, [])
      = Inr ((Items_init ! 1)\<lparr>lastValueRead := Double 1013.5,
                lastValueRecorded := Double 1013.5, lastTimeRecorded := 2000, lastTimeRead := 2000\<rparr>,
             [(RecordFloat ''MangOH.Sensors.Pressure.Pressure'' 1013.5 2000, LE_OK)])"
    by (simp add: input_defs sensor_defs)
  from tick run loop have 2: "stale_loop ?w 1000000
              [(Items_init ! 1)\<lparr>lastValueRead := Double 1013, lastValueRecorded := Double 1013,
                  lastTimeRead := 1000000\<rparr>]
              [(RecordFloat ''MangOH.Sensors.Pressure.Pressure'' 1013 1000000, LE_OK)]
            = Inr (Items s', RecordRef s')
      \<and> PushLog s' = [(RecordRef s', LE_OK)]"
    by (simp add: World_ok_def State_init_def)
  from 1 2 run ref show ?thesis by blast
qed

subsection \<open>A registry of complete items\<close>

text \<open>With no null function pointer in the registry the handler returns, whatever the
  sensors and the service do.\<close>

lemma read_and_record_complete:
  assumes "complete it"
  shows "\<exists>it' ref' publish'.
           read_and_record w now (it, ref, publish) = Inr (it', ref', publish') \<and> complete it'"
proof -
  from assms obtain rd check rc cp where p: "read it = Some rd" "thresholdCheck it = Some check"
    "record_fn it = Some rc" "copyValue it = Some cp"
    by (auto simp: complete_def)
  obtain r v where rv: "rd w (lastValueRead it) = (r, v)" by (cases "rd w (lastValueRead it)")
  obtain r' ref' where rr: "rc w ref now v = (r', ref')" by (cases "rc w ref now v")
  show ?thesis
  proof (cases "r = LE_OK")
    case False
    with p rv show ?thesis
      by (simp add: read_and_record_failed_read [where rd = rd and r = r] complete_def)
  next
    case ok: True
    show ?thesis
    proof (cases "lastTimeRecorded it = 0 \<or> check v (lastValueRecorded it)")
      case True
      with p rv rr ok have "read_and_record w now (it, ref, publish) =
          (if r' = LE_OK
           then Inr (it\<lparr>lastValueRead := v, lastTimeRead := now,
                        lastValueRecorded := cp (lastValueRecorded it) v\<rparr>, ref', True)
           else Inr (it\<lparr>lastValueRead := v, lastTimeRead := now\<rparr>, ref', publish))"
        by (intro read_and_record_wanted [where rd = rd and rc = rc]) auto
      with p show ?thesis by (cases "r' = LE_OK") (auto simp: complete_def)
    next
      case False
      with p rv ok have "read_and_record w now (it, ref, publish) =
           Inr (it\<lparr>lastValueRead := v, lastTimeRead := now\<rparr>, ref, publish)"
        by (intro read_and_record_not_wanted [where rd = rd and check = check]) auto
      with p show ?thesis by (simp add: complete_def)
    qed
  qed
qed

lemma sample_loop_complete:
  assumes "\<forall>it \<in> set its. complete it"
  shows "\<exists>its' ref' publish'.
           sample_loop w now lastTimePublished its ref publish = Inr (its', ref', publish')
           \<and> (\<forall>it \<in> set its'. complete it)"
  using assms
proof (induction its arbitrary: ref publish)
  case Nil
  then show ?case by simp
next
  case (Cons it its)
  then have "complete it" by simp
  from read_and_record_complete [OF this, of w now ref publish]
  obtain it1 ref1 publish1 where
    1: "read_and_record w now (it, ref, publish) = Inr (it1, ref1, publish1)" and c1: "complete it1"
    by blast
  from Cons.IH [of ref1 "if publish_forced now lastTimePublished it1 then True else publish1"] Cons.prems
  obtain its2 ref2 publish2 where
    2: "sample_loop w now lastTimePublished its ref1
          (if publish_forced now lastTimePublished it1 then True else publish1)
        = Inr (its2, ref2, publish2)" and c2: "\<forall>it \<in> set its2. complete it"
    by auto
  from 1 2 c1 c2 show ?case
    by (simp add: sample_item_def)
qed

lemma stale_item_complete:
  assumes "complete it"
  shows "\<exists>it' ref'. stale_item w now (it, ref) = Inr (it', ref') \<and> complete it'"
proof -
  from assms obtain rc cp where p: "record_fn it = Some rc" "copyValue it = Some cp"
    by (auto simp: complete_def)
  obtain r ref' where rr: "rc w ref (lastTimeRead it) (lastValueRead it) = (r, ref')"
    by (cases "rc w ref (lastTimeRead it) (lastValueRead it)")
  from assms show ?thesis
    by (simp add: stale_item_eq [OF p rr] complete_def)
qed

lemma stale_loop_complete:
  assumes "\<forall>it \<in> set its. complete it"
  shows "\<exists>its' ref'. stale_loop w now its ref = Inr (its', ref')"
  using assms
proof (induction its arbitrary: ref)
  case Nil
  then show ?case by simp
next
  case (Cons it its)
  then have "complete it" by simp
  from stale_item_complete [OF this, of w now ref]
  obtain it1 ref1 where 1: "stale_item w now (it, ref) = Inr (it1, ref1)" by blast
  from Cons.IH [of ref1] Cons.prems obtain its2 ref2 where
    2: "stale_loop w now its ref1 = Inr (its2, ref2)" by auto
  from 1 2 show ?case by simp
qed

lemma SampleTimerHandler_complete:
  assumes "\<forall>it \<in> set (Items s). complete it"
  shows "\<exists>s'. SampleTimerHandler w s = Inr s'"
proof -
  from sample_loop_complete [OF assms, of w "GetCurrentTimestamp w" "LastTimePublished s" "RecordRef s" False]
  obtain its ref publish where
    loop: "sample_loop w (GetCurrentTimestamp w) (LastTimePublished s) (Items s) (RecordRef s) False
             = Inr (its, ref, publish)"
    and c: "\<forall>it \<in> set its. complete it"
    by blast
  from stale_loop_complete [OF c, of w "GetCurrentTimestamp w" ref]
  obtain its' ref' where sweep: "stale_loop w (GetCurrentTimestamp w) its ref = Inr (its', ref')"
    by blast
  from loop sweep show ?thesis
    by (simp add: SampleTimerHandler_def publish_step_def le_avdata_PushRecord_def Let_def)
qed

subsection \<open>Composite records\<close>

lemma AccelerometerRecord_refines:
  "AccelerometerRecord w ref ts (Acc a) =
     spec_recordInto_composite w ts (Acceleration_subfields a) (LE_FAULT, ref)"
  by (simp add: AccelerometerRecord_def Acceleration_subfields_def Let_def split: prod.splits)

lemma GyroRecord_refines:
  "GyroRecord w ref ts (Gyr a) =
     spec_recordInto_composite w ts (Gyro_subfields a) (LE_FAULT, ref)"
  by (simp add: GyroRecord_def Gyro_subfields_def Let_def split: prod.splits)

lemma GpsRecord_refines:
  "GpsRecord w ref ts (Loc a) =
     spec_recordInto_composite w ts (Location3d_subfields a) (LE_FAULT, ref)"
  by (simp add: GpsRecord_def Location3d_subfields_def Let_def split: prod.splits)

lemma spec_recordInto_composite_attempts:
  assumes "fs \<noteq> []"
  shows "\<exists>k r. 1 \<le> k \<and> k \<le> length fs
           \<and> spec_recordInto_composite w ts fs (r0, ref)
               = (r, ref @ attempts ts (take k fs) r)
           \<and> (r = LE_OK \<longrightarrow> k = length fs)"
  using assms
proof (induction fs arbitrary: r0 ref)
  case Nil
  then show ?case by simp
next
  case (Cons f fs)
  obtain path v where f: "f = (path, v)" by (cases f)
  define c where "c = RecordFloat path v ts"
  define r1 where "r1 = le_avdata_Record w ref c"
  have call: "le_avdata_RecordFloat w ref path v ts = (r1, ref @ [(c, r1)])"
    by (simp add: le_avdata_RecordFloat_def c_def r1_def Let_def)
  show ?case
  proof (cases "r1 \<noteq> LE_OK \<or> fs = []")
    case True
    then have "spec_recordInto_composite w ts (f # fs) (r0, ref) = (r1, ref @ [(c, r1)])"
      by (auto simp: f call)
    moreover have "attempts ts (take 1 (f # fs)) r1 = [(c, r1)]"
      by (simp add: attempts_def f c_def)
    ultimately show ?thesis
      using True by (intro exI [of _ 1] exI [of _ r1]) auto
  next
    case False
    then have ok: "r1 = LE_OK" and ne: "fs \<noteq> []" by simp_all
    from Cons.IH [OF ne, of r1 "ref @ [(c, r1)]"]
    obtain k r where k: "1 \<le> k" "k \<le> length fs"
      and run: "spec_recordInto_composite w ts fs (r1, ref @ [(c, r1)])
                  = (r, (ref @ [(c, r1)]) @ attempts ts (take k fs) r)"
      and all: "r = LE_OK \<longrightarrow> k = length fs"
      by blast
    have "attempts ts (take (Suc k) (f # fs)) r = (c, LE_OK) # attempts ts (take k fs) r"
      using k by (cases k) (simp_all add: attempts_def f c_def min_def)
    then have "spec_recordInto_composite w ts (f # fs) (r0, ref)
                 = (r, ref @ attempts ts (take (Suc k) (f # fs)) r)"
      using run ok by (simp add: f call)
    then show ?thesis
      using k all by (intro exI [of _ "Suc k"] exI [of _ r]) auto
  qed
qed

text \<open>
  Claim C9. The record functions of acceleration, angular velocity and location are the spec's
  composite \<open>recordInto\<close> on their sub-fields. Each leaves on the record, after what was there,
  the appends of the first \<open>k\<close> sub-fields in their fixed order, for some \<open>k\<close> from 1 to the
  number of sub-fields: all but the last returned \<^verbatim>\<open>LE_OK\<close>, the last returned the result of the
  function, and a result \<^verbatim>\<open>LE_OK\<close> means that all sub-fields were appended. So a failing append
  is the last call made, its error is the result, and the entries before it stay.
\<close>

theorem composite_record_first_failure:
  "AccelerometerRecord w ref ts (Acc a) =
      spec_recordInto_composite w ts (Acceleration_subfields a) (LE_FAULT, ref)
   \<and> GyroRecord w ref ts (Gyr g) =
      spec_recordInto_composite w ts (Gyro_subfields g) (LE_FAULT, ref)
   \<and> GpsRecord w ref ts (Loc l) =
      spec_recordInto_composite w ts (Location3d_subfields l) (LE_FAULT, ref)
   \<and> (\<exists>k r. 1 \<le> k \<and> k \<le> 3
         \<and> AccelerometerRecord w ref ts (Acc a)
             = (r, ref @ attempts ts (take k (Acceleration_subfields a)) r)
         \<and> (r = LE_OK \<longrightarrow> k = 3))
   \<and> (\<exists>k r. 1 \<le> k \<and> k \<le> 3
         \<and> GyroRecord w ref ts (Gyr g) = (r, ref @ attempts ts (take k (Gyro_subfields g)) r)
         \<and> (r = LE_OK \<longrightarrow> k = 3))
   \<and> (\<exists>k r. 1 \<le> k \<and> k \<le> 5
         \<and> GpsRecord w ref ts (Loc l) = (r, ref @ attempts ts (take k (Location3d_subfields l)) r)
         \<and> (r = LE_OK \<longrightarrow> k = 5))"
proof -
  have a: "Acceleration_subfields a \<noteq> []" "length (Acceleration_subfields a) = 3"
    by (simp_all add: Acceleration_subfields_def)
  have g: "Gyro_subfields g \<noteq> []" "length (Gyro_subfields g) = 3"
    by (simp_all add: Gyro_subfields_def)
  have l: "Location3d_subfields l \<noteq> []" "length (Location3d_subfields l) = 5"
    by (simp_all add: Location3d_subfields_def)
  show ?thesis
    using spec_recordInto_composite_attempts [OF a(1), of w ts LE_FAULT ref]
      spec_recordInto_composite_attempts [OF g(1), of w ts LE_FAULT ref]
      spec_recordInto_composite_attempts [OF l(1), of w ts LE_FAULT ref]
    unfolding a(2) g(2) l(2) AccelerometerRecord_refines GyroRecord_refines GpsRecord_refines
    by blast
qed

theorem composite_record_first_failure_witness:
  "GyroRecord (World_ok 1000) [] 1000 (Gyr \<lparr>gyro_x = 1, gyro_y = 2, gyro_z = 3\<rparr>) =
     (LE_OK,
      [(RecordFloat ''MangOH.Sensors.Accelerometer.Gyro.X'' 1 1000, LE_OK),
       (RecordFloat ''MangOH.Sensors.Accelerometer.Gyro.Y'' 2 1000, LE_OK),
       (RecordFloat ''MangOH.Sensors.Accelerometer.Gyro.Z'' 3 1000, LE_OK)])
   \<and> attempts 1000 (take 3 (Gyro_subfields \<lparr>gyro_x = 1, gyro_y = 2, gyro_z = 3\<rparr>)) LE_OK =
      [(RecordFloat ''MangOH.Sensors.Accelerometer.Gyro.X'' 1 1000, LE_OK),
       (RecordFloat ''MangOH.Sensors.Accelerometer.Gyro.Y'' 2 1000, LE_OK),
       (RecordFloat ''MangOH.Sensors.Accelerometer.Gyro.Z'' 3 1000, LE_OK)]
   \<and> AccelerometerRecord
        ((World_ok 1000)\<lparr>le_avdata_Record := \<lambda>ref c. if length ref < 1 then LE_OK else LE_OVERFLOW\<rparr>)
        [] 1000 (Acc \<lparr>acc_x = 1, acc_y = 2, acc_z = 3\<rparr>) =
     (LE_OVERFLOW,
      [(RecordFloat ''MangOH.Sensors.Accelerometer.Acceleration.X'' 1 1000, LE_OK),
       (RecordFloat ''MangOH.Sensors.Accelerometer.Acceleration.Y'' 2 1000, LE_OVERFLOW)])
   \<and> attempts 1000 (take 2 (Acceleration_subfields \<lparr>acc_x = 1, acc_y = 2, acc_z = 3\<rparr>)) LE_OVERFLOW =
      [(RecordFloat ''MangOH.Sensors.Accelerometer.Acceleration.X'' 1 1000, LE_OK),
       (RecordFloat ''MangOH.Sensors.Accelerometer.Acceleration.Y'' 2 1000, LE_OVERFLOW)]"
  using composite_record_first_failure [of "World_ok 1000" "[]" 1000
      "\<lparr>acc_x = 1, acc_y = 2, acc_z = 3\<rparr>" "\<lparr>gyro_x = 1, gyro_y = 2, gyro_z = 3\<rparr>"]
  by (simp add: World_ok_def sensor_defs attempts_def Acceleration_subfields_def Gyro_subfields_def)

subsection \<open>Where the code departs from its own description\<close>

text \<open>
  Claim C4. The first entry of the registry, the light level, has no \<^verbatim>\<open>read\<close> and no
  \<^verbatim>\<open>thresholdCheck\<close>. From the initial state every tick, in every world, ends in the call of
  the null \<^verbatim>\<open>read\<close> pointer in the first iteration.
\<close>

theorem null_read_crashes_tick:
  "read (Items_init ! 0) = None \<and> thresholdCheck (Items_init ! 0) = None
   \<and> name (Items_init ! 0) = ''light level''
   \<and> SampleTimerHandler w State_init = Inl NullFunctionPointer"
  by (simp add: input_defs handler_defs)

text \<open>
  Claim C2. The pressure item of the registry, never recorded, read at time 1000000 in a world
  where every call succeeds: the reading is recorded and copied to \<^verbatim>\<open>lastValueRecorded\<close> and a
  publish is wanted, but \<^verbatim>\<open>lastTimeRecorded\<close> is still 0 after the iteration. (No iteration of
  the sampling loop changes \<^verbatim>\<open>lastTimeRecorded\<close>: lemma \<open>sample_item_lastTimeRecorded\<close>.)
\<close>

theorem sampling_leaves_lastTimeRecorded:
  "sample_item (World_ok 1000000) 1000000 0 (Items_init ! 1, [], False) =
     Inr ((Items_init ! 1)\<lparr>lastValueRead := Double 1013, lastTimeRead := 1000000,
                            lastValueRecorded := Double 1013\<rparr>,
          [(RecordFloat ''MangOH.Sensors.Pressure.Pressure'' 1013 1000000, LE_OK)], True)
   \<and> lastTimeRecorded ((Items_init ! 1)\<lparr>lastValueRead := Double 1013, lastTimeRead := 1000000,
                            lastValueRecorded := Double 1013\<rparr>) = 0"
  by (simp add: input_defs handler_defs sensor_defs)

text \<open>
  Claim C1. The five complete items of the registry, two ticks one second apart in a world
  where every call succeeds, the pressure moving from 1013 to 1020 between them: the first tick
  pushes at time 1000000 and the second pushes again at time 1001000, 1000 ms after a
  successful push, since the elapsed milliseconds are compared with
  \<^verbatim>\<open>MinIntervalBetweenPublish = 10\<close> itself.
\<close>

theorem flush_one_second_after_flush:
  "(case SampleTimerHandler (World_ok 1000000) (State_init\<lparr>Items := tl Items_init\<rparr>) of
      Inl e \<Rightarrow> False
    | Inr s1 \<Rightarrow>
        (case SampleTimerHandler
                ((World_ok 1001000)\<lparr>mangOH_ReadPressureSensor := \<lambda>_. (LE_OK, 1020)\<rparr>) s1 of
           Inl e \<Rightarrow> False
         | Inr s2 \<Rightarrow>
             LastTimePublished s1 = 1000000 \<and> map snd (PushLog s1) = [LE_OK]
             \<and> LastTimePublished s2 = 1001000 \<and> map snd (PushLog s2) = [LE_OK, LE_OK]
             \<and> \<not> DeferredPublish s2))"
  by (simp add: input_defs handler_defs sensor_defs)

end
